theory Spec2Isabelle
  imports Complex_Main "HOL-Library.Sublist" "HOL-Library.AList"
begin

section \<open>Values, requests and the observable world\<close>

text \<open>
  The script \<^verbatim>\<open>etl/join_building_data/load_csv.py\<close> reads rows of a CSV file, resolves
  each row to a building identifier and posts the row to the HTTP API. The Python values
  it handles are the strings and \<^verbatim>\<open>None\<close> cells produced by \<^verbatim>\<open>csv.DictReader\<close> and the
  values produced by decoding JSON; one datatype covers both (\<open>JNull\<close> is \<^verbatim>\<open>None\<close>,
  \<open>JStr\<close> is \<^verbatim>\<open>str\<close>, \<open>JObj\<close> is a \<^verbatim>\<open>dict\<close> with string keys in insertion order).
  Numbers that are not integers are kept apart in \<open>JFloat\<close>.
\<close>

datatype json =
    JNull
  | JBool bool
  | JNum int
  | JFloat rat
  | JStr string
  | JArr "json list"
  | JObj "(string \<times> json) list"

text \<open>
  A row of \<^verbatim>\<open>csv.DictReader\<close>: column name to cell, in header order. A cell is a
  string, or \<^verbatim>\<open>None\<close> when the line is shorter than the header. A dict is read through
  \<open>map_of\<close>, so a key is bound once. Lines longer than the header, whose surplus cells
  \<^verbatim>\<open>DictReader\<close> collects under the key \<^verbatim>\<open>None\<close>, are left out.
\<close>

type_synonym row = "(string \<times> json) list"

text \<open>The exceptions the script can meet.\<close>

datatype pyerr = KeyError | IndexError | TypeError | JSONDecodeError | RequestException

text \<open>
  The two HTTP requests of the script, with the values that are formatted into them:
  \<open>Reference_GET base_url ref_key ref_id\<close> is
  \<^verbatim>\<open>GET {base_url}/api/buildings/reference?key={ref_key}&id={ref_id}\<close> and
  \<open>Building_POST base_url building_id api_key data\<close> is
  \<^verbatim>\<open>POST {base_url}/api/buildings/{building_id}.json?api_key={api_key}\<close> with JSON body
  \<open>data\<close>.
\<close>

datatype request =
    Reference_GET string string json
  | Building_POST string json string row

text \<open>
  What one HTTP attempt yields: the \<^verbatim>\<open>requests\<close> call raises (\<open>ConnectionFailed\<close>), or
  it returns a response with a status code and a body; the body is given as \<^verbatim>\<open>r.json()\<close>
  sees it, \<open>None\<close> when it is not JSON and \<^verbatim>\<open>r.json()\<close> raises.
\<close>

datatype reply = ConnectionFailed | Response int "json option"

text \<open>
  Everything the run does to the outside is recorded in order: each HTTP exchange with
  its reply, and each \<^verbatim>\<open>print\<close> call with its arguments. The remote side is any function
  of the history so far and the request, so it may answer the same request differently
  at different times.
\<close>

datatype event = Http request reply | Print "json list"

type_synonym world = "event list"

type_synonym remote = "world \<Rightarrow> request \<Rightarrow> reply"

definition send :: "remote \<Rightarrow> request \<Rightarrow> world \<Rightarrow> reply \<times> world" where
  "send net req w = (net w req, w @ [Http req (net w req)])"

definition print :: "json list \<Rightarrow> world \<Rightarrow> world" where
  "print args w = w @ [Print args]"

section \<open>The Python operations the script applies to decoded JSON\<close>

text \<open>Truth value of a Python object, as \<^verbatim>\<open>if buildings\<close> tests it.\<close>

fun truthy :: "json \<Rightarrow> bool" where
  "truthy JNull = False"
| "truthy (JBool b) = b"
| "truthy (JNum n) = (n \<noteq> 0)"
| "truthy (JFloat r) = (r \<noteq> 0)"
| "truthy (JStr s) = (s \<noteq> [])"
| "truthy (JArr xs) = (xs \<noteq> [])"
| "truthy (JObj kvs) = (kvs \<noteq> [])"

text \<open>
  \<^verbatim>\<open>s in x\<close> for a string \<open>s\<close>: an element of a list, a key of a dict, a substring of
  a string; any other right operand raises \<^verbatim>\<open>TypeError\<close>.
\<close>

fun py_in :: "string \<Rightarrow> json \<Rightarrow> pyerr + bool" where
  "py_in s (JArr xs) = Inr (JStr s \<in> set xs)"
| "py_in s (JObj kvs) = Inr (s \<in> fst ` set kvs)"
| "py_in s (JStr t) = Inr (sublist s t)"
| "py_in s _ = Inl TypeError"

text \<open>\<^verbatim>\<open>len(x)\<close>; a dict counts its distinct keys.\<close>

fun py_len :: "json \<Rightarrow> pyerr + nat" where
  "py_len (JArr xs) = Inr (length xs)"
| "py_len (JObj kvs) = Inr (length (remdups (map fst kvs)))"
| "py_len (JStr t) = Inr (length t)"
| "py_len _ = Inl TypeError"

text \<open>
  \<^verbatim>\<open>x[0]\<close>: the first element of a list or the first character of a string
  (\<^verbatim>\<open>IndexError\<close> when empty); a dict decoded from JSON has string keys only, so the key
  \<open>0\<close> is missing (\<^verbatim>\<open>KeyError\<close>); other values are not subscriptable.
\<close>

fun py_first :: "json \<Rightarrow> pyerr + json" where
  "py_first (JArr []) = Inl IndexError"
| "py_first (JArr (x # xs)) = Inr x"
| "py_first (JStr []) = Inl IndexError"
| "py_first (JStr (c # cs)) = Inr (JStr [c])"
| "py_first (JObj kvs) = Inl KeyError"
| "py_first _ = Inl TypeError"

text \<open>
  \<^verbatim>\<open>x[k]\<close> for a string key \<open>k\<close>: the value of a dict (\<^verbatim>\<open>KeyError\<close> when the key is
  missing); lists and strings take integer indices only, other values are not
  subscriptable.
\<close>

fun py_item :: "json \<Rightarrow> string \<Rightarrow> pyerr + json" where
  "py_item (JObj kvs) k = (case map_of kvs k of None \<Rightarrow> Inl KeyError | Some v \<Rightarrow> Inr v)"
| "py_item _ k = Inl TypeError"

section \<open>The retry decorator\<close>

text \<open>
  Both network functions are wrapped in \<^verbatim>\<open>@retry(wait_exponential_multiplier=1000,
  wait_exponential_max=10000)\<close> of the \<^verbatim>\<open>retrying\<close> package. No stop condition and no
  exception filter is given, so the wrapped function is called again after every
  exception it raises, without limit; the first call that returns gives the result. A
  call that never stops raising never returns: \<open>None\<close>. The waiting between calls is
  computed inside the package, has no effect on the values, and is not modelled.
\<close>

partial_function (option) retry :: "('s \<Rightarrow> ('e + 'a) \<times> 's) \<Rightarrow> 's \<Rightarrow> ('a \<times> 's) option" where
  "retry f s = (case f s of (Inl e, s') \<Rightarrow> retry f s' | (Inr v, s') \<Rightarrow> Some (v, s'))"

declare retry.simps [code]

text \<open>The state after \<open>n\<close> calls in a row that all raised (\<open>None\<close> if one of them returned).\<close>

fun failed_calls :: "('s \<Rightarrow> ('e + 'a) \<times> 's) \<Rightarrow> nat \<Rightarrow> 's \<Rightarrow> 's option" where
  "failed_calls f 0 s = Some s"
| "failed_calls f (Suc n) s =
     (case f s of (Inl e, s') \<Rightarrow> failed_calls f n s' | (Inr v, s') \<Rightarrow> None)"

section \<open>Reference lookup\<close>

text \<open>Lines 117 to 124 of \<^verbatim>\<open>find_by_reference\<close>: choosing the identifier from the decoded response.\<close>

definition pick_building :: "json \<Rightarrow> pyerr + json" where
  "pick_building buildings =
     (if \<not> truthy buildings then Inr JNull
      else case py_in ''error'' buildings of
        Inl e \<Rightarrow> Inl e
      | Inr found \<Rightarrow>
          if found then Inr JNull
          else
            (case py_len buildings of
               Inl e \<Rightarrow> Inl e
             | Inr n \<Rightarrow>
                 if n = 1 then
                   (case py_first buildings of
                      Inl e \<Rightarrow> Inl e
                    | Inr b \<Rightarrow> py_item b ''building_id'')
                 else Inr JNull))"

text \<open>One call of the undecorated \<^verbatim>\<open>find_by_reference\<close>.\<close>

definition find_by_reference_once ::
  "remote \<Rightarrow> string \<Rightarrow> string \<Rightarrow> json \<Rightarrow> world \<Rightarrow> (pyerr + json) \<times> world" where
  "find_by_reference_once net base_url ref_key ref_id w =
     (case send net (Reference_GET base_url ref_key ref_id) w of
        (ConnectionFailed, w') \<Rightarrow> (Inl RequestException, w')
      | (Response code None, w') \<Rightarrow> (Inl JSONDecodeError, w')
      | (Response code (Some buildings), w') \<Rightarrow> (pick_building buildings, w'))"

definition find_by_reference ::
  "remote \<Rightarrow> string \<Rightarrow> string \<Rightarrow> json \<Rightarrow> world \<Rightarrow> (json \<times> world) option" where
  "find_by_reference net base_url ref_key ref_id =
     retry (find_by_reference_once net base_url ref_key ref_id)"

section \<open>The resolver\<close>

text \<open>
  \<^verbatim>\<open>find_building\<close> is a chain of three guarded attempts with early returns. Each
  definition below is the function from one guard to its end: \<open>find_building_uprn\<close>
  is lines 99 to 106, \<open>find_building_toid\<close> lines 93 to 106 and \<open>find_building\<close> the
  whole body. \<open>k in data\<close> followed by \<open>data[k]\<close> is the lookup \<open>map_of data k\<close>.
\<close>

definition no_match :: "row \<Rightarrow> world \<Rightarrow> (json \<times> world) option" where
  "no_match data w = Some (JNull, print [JStr ''no_match'', JObj data] w)"

definition find_building_uprn :: "remote \<Rightarrow> row \<Rightarrow> string \<Rightarrow> world \<Rightarrow> (json \<times> world) option" where
  "find_building_uprn net data base_url w =
     (case map_of data ''uprn'' of
        None \<Rightarrow> no_match data w
      | Some uprn \<Rightarrow>
          (case find_by_reference net base_url ''uprn'' uprn w of
             None \<Rightarrow> None
           | Some (building_id, w') \<Rightarrow>
               if building_id \<noteq> JNull
               then Some (building_id, print [JStr ''match_by_uprn'', uprn, building_id] w')
               else no_match data w'))"

definition find_building_toid :: "remote \<Rightarrow> row \<Rightarrow> string \<Rightarrow> world \<Rightarrow> (json \<times> world) option" where
  "find_building_toid net data base_url w =
     (case map_of data ''toid'' of
        None \<Rightarrow> find_building_uprn net data base_url w
      | Some toid \<Rightarrow>
          (case find_by_reference net base_url ''toid'' toid w of
             None \<Rightarrow> None
           | Some (building_id, w') \<Rightarrow>
               if building_id \<noteq> JNull
               then Some (building_id, print [JStr ''match_by_toid'', toid, building_id] w')
               else find_building_uprn net data base_url w'))"

definition find_building :: "remote \<Rightarrow> row \<Rightarrow> string \<Rightarrow> world \<Rightarrow> (json \<times> world) option" where
  "find_building net data base_url w =
     (case map_of data ''building_id'' of
        None \<Rightarrow> find_building_toid net data base_url w
      | Some building_id \<Rightarrow>
          if building_id \<noteq> JNull
          then Some (building_id, print [JStr ''match_by_building_id'', building_id] w)
          else find_building_toid net data base_url w)"

section \<open>Decoding the JSON columns\<close>

text \<open>
  \<^verbatim>\<open>json.loads\<close> belongs to Python's standard library, not to the script: its action on
  strings is the parameter \<open>loads\<close> (\<open>None\<close> when the text is not JSON and
  \<^verbatim>\<open>JSONDecodeError\<close> is raised). Applied to anything that is not a string it raises
  \<^verbatim>\<open>TypeError\<close>.
\<close>

definition json_loads :: "(string \<Rightarrow> json option) \<Rightarrow> json \<Rightarrow> pyerr + json" where
  "json_loads loads cell =
     (case cell of
        JStr s \<Rightarrow> (case loads s of None \<Rightarrow> Inl JSONDecodeError | Some v \<Rightarrow> Inr v)
      | _ \<Rightarrow> Inl TypeError)"

fun parse_json_columns :: "(string \<Rightarrow> json option) \<Rightarrow> row \<Rightarrow> string list \<Rightarrow> pyerr + row" where
  "parse_json_columns loads row [] = Inr row"
| "parse_json_columns loads row (col # cols) =
     (case map_of row col of
        None \<Rightarrow> Inl KeyError
      | Some cell \<Rightarrow>
          (case json_loads loads cell of
             Inl e \<Rightarrow> Inl e
           | Inr v \<Rightarrow> parse_json_columns loads (AList.update col v row) cols))"

section \<open>Submitting the update\<close>

text \<open>One call of the undecorated \<^verbatim>\<open>update_building\<close>.\<close>

definition update_building_once ::
  "remote \<Rightarrow> json \<Rightarrow> row \<Rightarrow> string \<Rightarrow> string \<Rightarrow> world \<Rightarrow> (pyerr + int \<times> json) \<times> world" where
  "update_building_once net building_id data api_key base_url w =
     (case send net (Building_POST base_url building_id api_key data) w of
        (ConnectionFailed, w') \<Rightarrow> (Inl RequestException, w')
      | (Response status_code None, w') \<Rightarrow> (Inl JSONDecodeError, w')
      | (Response status_code (Some body), w') \<Rightarrow> (Inr (status_code, body), w'))"

definition update_building ::
  "remote \<Rightarrow> json \<Rightarrow> row \<Rightarrow> string \<Rightarrow> string \<Rightarrow> world \<Rightarrow> ((int \<times> json) \<times> world) option" where
  "update_building net building_id data api_key base_url =
     retry (update_building_once net building_id data api_key base_url)"

section \<open>The row loop\<close>

text \<open>Lines 64 and 65: an empty \<^verbatim>\<open>sust_dec\<close> cell is deleted from the row.\<close>

definition drop_empty_sust_dec :: "row \<Rightarrow> row" where
  "drop_empty_sust_dec line =
     (if map_of line ''sust_dec'' = Some (JStr [])
      then AList.delete ''sust_dec'' line else line)"

text \<open>Lines 68 to 71: the report of an update.\<close>

definition report :: "json \<Rightarrow> int \<Rightarrow> json \<Rightarrow> world \<Rightarrow> world" where
  "report building_id response_code response_data w =
     (if response_code \<noteq> 200
      then print [JStr ''ERROR'', building_id, JNum response_code, response_data] w
      else print [JStr ''DEBUG'', building_id, JNum response_code, response_data] w)"

text \<open>
  The body of the \<^verbatim>\<open>for\<close> loop of \<^verbatim>\<open>main\<close> (lines 58 to 71) for one row. The result is
  \<open>None\<close> when a decorated call never returns, \<open>Inl\<close> when an exception leaves the loop
  body, \<open>Inr ()\<close> when the body ends or reaches \<^verbatim>\<open>continue\<close>.
\<close>

definition main_body ::
  "remote \<Rightarrow> (string \<Rightarrow> json option) \<Rightarrow> string \<Rightarrow> string \<Rightarrow> string list \<Rightarrow> row \<Rightarrow> world
     \<Rightarrow> ((pyerr + unit) \<times> world) option" where
  "main_body net loads base_url api_key json_columns line w =
     (case find_building net line base_url w of
        None \<Rightarrow> None
      | Some (building_id, w1) \<Rightarrow>
          (case parse_json_columns loads line json_columns of
             Inl e \<Rightarrow> Some (Inl e, w1)
           | Inr line' \<Rightarrow>
               if building_id = JNull then Some (Inr (), w1)
               else
                 (case update_building net building_id (drop_empty_sust_dec line') api_key base_url w1 of
                    None \<Rightarrow> None
                  | Some ((response_code, response_data), w2) \<Rightarrow>
                      Some (Inr (), report building_id response_code response_data w2))))"

text \<open>
  \<^verbatim>\<open>main\<close>, over the rows that \<^verbatim>\<open>csv.DictReader\<close> yields for the source file. Nothing
  catches an exception, so the first one ends the run.
\<close>

fun main ::
  "remote \<Rightarrow> (string \<Rightarrow> json option) \<Rightarrow> string \<Rightarrow> string \<Rightarrow> row list \<Rightarrow> string list \<Rightarrow> world
     \<Rightarrow> ((pyerr + unit) \<times> world) option" where
  "main net loads base_url api_key [] json_columns w = Some (Inr (), w)"
| "main net loads base_url api_key (line # reader) json_columns w =
     (case main_body net loads base_url api_key json_columns line w of
        None \<Rightarrow> None
      | Some (Inl e, w') \<Rightarrow> Some (Inl e, w')
      | Some (Inr u, w') \<Rightarrow> main net loads base_url api_key reader json_columns w')"

section \<open>Notions of the specification\<close>

text \<open>
  The response of the reference endpoint carries an error indicator when it is an
  object with an \<open>error\<close> field or an array that holds the string \<open>error\<close>.
\<close>

fun error_indicator :: "json \<Rightarrow> bool" where
  "error_indicator (JObj kvs) = (''error'' \<in> fst ` set kvs)"
| "error_indicator (JArr xs) = (JStr ''error'' \<in> set xs)"
| "error_indicator _ = False"

text \<open>A reply that carries a status code and a JSON body.\<close>

fun answered :: "reply \<Rightarrow> bool" where
  "answered (Response code (Some body)) = True"
| "answered _ = False"

text \<open>
  The first strategy of the resolver does not apply: the row has no \<open>building_id\<close>
  column, or the cell is \<^verbatim>\<open>None\<close>.
\<close>

definition no_building_id :: "row \<Rightarrow> bool" where
  "no_building_id data \<longleftrightarrow> map_of data ''building_id'' = None \<or> map_of data ''building_id'' = Some JNull"

text \<open>
  The second strategy does not resolve, and leaves the world \<open>w1\<close>: the row has no
  \<open>toid\<close> column and nothing happens, or the \<open>toid\<close> lookup returns Absent.
\<close>

definition toid_unresolved :: "remote \<Rightarrow> row \<Rightarrow> string \<Rightarrow> world \<Rightarrow> world \<Rightarrow> bool" where
  "toid_unresolved net data base_url w w1 \<longleftrightarrow>
     (case map_of data ''toid'' of
        None \<Rightarrow> w1 = w
      | Some toid \<Rightarrow> find_by_reference net base_url ''toid'' toid w = Some (JNull, w1))"

text \<open>The kinds of events: a reference lookup, an update request, an update request that was answered.\<close>

fun is_lookup :: "event \<Rightarrow> bool" where
  "is_lookup (Http (Reference_GET base_url ref_key ref_id) rep) = True"
| "is_lookup _ = False"

fun is_update :: "event \<Rightarrow> bool" where
  "is_update (Http (Building_POST base_url building_id api_key data) rep) = True"
| "is_update _ = False"


text \<open>
  The line the resolver reports for a row and a result: \<open>no_match\<close> with the row when
  the result is Absent, otherwise the name of the strategy that matched, the matched
  value for \<open>toid\<close> and \<open>uprn\<close>, and the identifier.
\<close>

definition resolver_report :: "row \<Rightarrow> json \<Rightarrow> json list \<Rightarrow> bool" where
  "resolver_report data b line \<longleftrightarrow>
     (if b = JNull then line = [JStr ''no_match'', JObj data]
      else (map_of data ''building_id'' = Some b \<and> line = [JStr ''match_by_building_id'', b])
         \<or> (case map_of data ''toid'' of
               None \<Rightarrow> False
             | Some toid \<Rightarrow> line = [JStr ''match_by_toid'', toid, b])
         \<or> (case map_of data ''uprn'' of
               None \<Rightarrow> False
             | Some uprn \<Rightarrow> line = [JStr ''match_by_uprn'', uprn, b]))"

text \<open>
  The forms of the output lines: \<open>match_by_building_id id\<close>, \<open>match_by_toid value id\<close>,
  \<open>match_by_uprn value id\<close>, \<open>no_match row\<close>, \<open>ERROR id status body\<close> and
  \<open>DEBUG id status body\<close>.
\<close>

fun output_line :: "json list \<Rightarrow> bool" where
  "output_line [JStr tag, x] = (tag = ''match_by_building_id'' \<or> tag = ''no_match'')"
| "output_line [JStr tag, x, y] = (tag = ''match_by_toid'' \<or> tag = ''match_by_uprn'')"
| "output_line [JStr tag, x, JNum code, body] = (tag = ''ERROR'' \<or> tag = ''DEBUG'')"
| "output_line _ = False"

fun expected_event :: "event \<Rightarrow> bool" where
  "expected_event (Print line) = output_line line"
| "expected_event (Http req rep) = True"

text \<open>
  A lookup attempt with a key and a value is reported by a line that names the strategy
  and the matched value, or by a \<open>no_match\<close> line whose row holds the value under the
  key; every attempt is reported when each lookup in the world has such a line.
\<close>

fun reports_attempt :: "string \<Rightarrow> json \<Rightarrow> event \<Rightarrow> bool" where
  "reports_attempt ref_key ref_id (Print [JStr tag, v, b]) =
     (tag = ''match_by_'' @ ref_key \<and> v = ref_id)"
| "reports_attempt ref_key ref_id (Print [JStr tag, JObj data]) =
     (tag = ''no_match'' \<and> map_of data ref_key = Some ref_id)"
| "reports_attempt ref_key ref_id _ = False"

fun attempt_reported :: "world \<Rightarrow> event \<Rightarrow> bool" where
  "attempt_reported w (Http (Reference_GET base_url ref_key ref_id) rep) =
     list_ex (reports_attempt ref_key ref_id) w"
| "attempt_reported w _ = True"

definition every_attempt_reported :: "world \<Rightarrow> bool" where
  "every_attempt_reported w = list_all (attempt_reported w) w"

text \<open>The identifier columns, and a row with the identifier columns removed.\<close>

definition identifier_columns :: "string list" where
  "identifier_columns = [''building_id'', ''toid'', ''uprn'']"

definition without_identifier_columns :: "row \<Rightarrow> row" where
  "without_identifier_columns data = filter (\<lambda>(k, v). k \<notin> set identifier_columns) data"

section \<open>Example data\<close>

text \<open>
  A remote registry that accepts every update and knows one building by the TOID
  \<open>X123\<close>, one by the UPRN \<open>100\<close> and two under the TOID \<open>X555\<close>; the same registry
  rejecting every update with status 422; and the first one behind a connection that
  fails for the first two requests of the run.
\<close>

definition registry :: remote where
  "registry w req =
     (case req of
        Reference_GET base_url ref_key ref_id \<Rightarrow>
          if ref_key = ''toid'' \<and> ref_id = JStr ''X123''
          then Response 200 (Some (JArr [JObj [(''building_id'', JStr ''7'')]]))
          else if ref_key = ''uprn'' \<and> ref_id = JStr ''100''
          then Response 200 (Some (JArr [JObj [(''building_id'', JStr ''9'')]]))
          else if ref_key = ''toid'' \<and> ref_id = JStr ''X555''
          then Response 200 (Some (JArr [JObj [(''building_id'', JStr ''1'')],
                                         JObj [(''building_id'', JStr ''2'')]]))
          else Response 200 (Some (JArr []))
      | Building_POST base_url building_id api_key data \<Rightarrow> Response 200 (Some (JObj [])))"

definition strict_registry :: remote where
  "strict_registry w req =
     (case req of
        Reference_GET base_url ref_key ref_id \<Rightarrow> registry w req
      | Building_POST base_url building_id api_key data \<Rightarrow>
          Response 422 (Some (JObj [(''error'', JStr ''invalid'')])))"

definition flaky_registry :: remote where
  "flaky_registry w req = (if length w < 2 then ConnectionFailed else registry w req)"

text \<open>
  A stand-in for \<^verbatim>\<open>json.loads\<close> in the examples: it agrees with \<^verbatim>\<open>json.loads\<close> on the two
  texts the examples decode: the array \<^verbatim>\<open>[1,2,3]\<close> and the invalid texts \<^verbatim>\<open>{\<close> and \<^verbatim>\<open>nil\<close>.
\<close>

definition loads_example :: "string \<Rightarrow> json option" where
  "loads_example s = (if s = ''[1,2,3]'' then Some (JArr [JNum 1, JNum 2, JNum 3]) else None)"

section \<open>Facts about the retry decorator\<close>

lemma retry_returns:
  "failed_calls f n s = Some s1 \<Longrightarrow> f s1 = (Inr v, s2) \<Longrightarrow> retry f s = Some (v, s2)"
proof (induction n arbitrary: s)
  case 0
  then show ?case by (subst retry.simps) simp
next
  case (Suc n)
  then show ?case by (subst retry.simps) (auto split: prod.splits sum.splits)
qed

lemma retry_first: "f s = (Inr v, s') \<Longrightarrow> retry f s = Some (v, s')"
  by (subst retry.simps) simp

lemma retry_SomeD:
  assumes "retry f s = Some r"
  shows "\<exists>n s1. failed_calls f n s = Some s1 \<and> f s1 = (Inr (fst r), snd r)"
  using assms
  apply (rule retry.raw_induct [rotated,
     where P = "\<lambda>f s r. \<exists>n s1. failed_calls f n s = Some s1 \<and> f s1 = (Inr (fst r), snd r)"])
  subgoal premises prems for retry' g t y
  proof (cases "g t")
    case (Pair x s')
    show ?thesis
    proof (cases x)
      case (Inl e)
      with Pair prems(2) have "retry' g s' = Some y" by simp
      from prems(1)[OF this] obtain n s1
        where *: "failed_calls g n s' = Some s1" "g s1 = (Inr (fst y), snd y)" by blast
      then have "failed_calls g (Suc n) t = Some s1" using Pair Inl by simp
      then show ?thesis using *(2) by blast
    next
      case (Inr v)
      with Pair prems(2) have "y = (v, s')" by simp
      then have "failed_calls g 0 t = Some t" "g t = (Inr (fst y), snd y)"
        using Pair Inr by simp_all
      then show ?thesis by blast
    qed
  qed
  done

text \<open>
  When every call appends one event to the world, a returning retry leaves the events
  of the raising calls followed by the event of the call that returned.
\<close>

lemma failed_calls_appends:
  assumes step: "\<And>s e s'. f s = (Inl e, s') \<Longrightarrow> \<exists>x. s' = s @ [x] \<and> P x"
  shows "failed_calls f n s = Some s1 \<Longrightarrow> \<exists>evs. s1 = s @ evs \<and> list_all P evs"
proof (induction n arbitrary: s)
  case 0
  then show ?case by simp
next
  case (Suc n)
  then obtain e s' where fs: "f s = (Inl e, s')" and rest: "failed_calls f n s' = Some s1"
    by (auto split: prod.splits sum.splits)
  from step[OF fs] obtain x where x: "s' = s @ [x]" "P x" by blast
  from Suc.IH[OF rest] obtain evs where "s1 = s' @ evs" "list_all P evs" by blast
  with x have "s1 = s @ (x # evs)" "list_all P (x # evs)" by simp_all
  then show ?case by blast
qed

lemma retry_trace:
  assumes fail: "\<And>s e s'. f s = (Inl e, s') \<Longrightarrow> \<exists>x. s' = s @ [x] \<and> P x"
    and ok: "\<And>s v s'. f s = (Inr v, s') \<Longrightarrow> \<exists>x. s' = s @ [x] \<and> Q v x"
    and ret: "retry f s = Some (v, s')"
  shows "\<exists>evs x. s' = s @ evs @ [x] \<and> list_all P evs \<and> Q v x"
proof -
  from retry_SomeD[OF ret] obtain n s1
    where n: "failed_calls f n s = Some s1" and last: "f s1 = (Inr v, s')"
    by auto
  have "\<exists>evs. s1 = s @ evs \<and> list_all P evs"
    using n by (rule failed_calls_appends [rotated]) (rule fail)
  then obtain evs where evs: "s1 = s @ evs" "list_all P evs"
    by blast
  from ok[OF last] obtain x where "s' = s1 @ [x]" "Q v x" by blast
  with evs show ?thesis by auto
qed

section \<open>Facts about the reference lookup\<close>

lemma pick_building_identifier:
  assumes "pick_building buildings = Inr b" and "b \<noteq> JNull"
  shows "\<exists>cand. buildings = JArr [cand] \<and> \<not> error_indicator buildings
           \<and> py_item cand ''building_id'' = Inr b"
proof (cases buildings)
  case (JArr xs)
  with assms have "JStr ''error'' \<notin> set xs" and "length xs = 1"
    by (auto simp: pick_building_def split: if_splits)
  then obtain cand where xs: "xs = [cand]"
    by (cases xs) auto
  with assms JArr \<open>JStr ''error'' \<notin> set xs\<close> show ?thesis
    by (auto simp: pick_building_def split: if_splits)
next
  case (JStr t)
  with assms show ?thesis
    by (cases t) (auto simp: pick_building_def split: if_splits)
next
  case (JObj kvs)
  with assms show ?thesis
    by (auto simp: pick_building_def split: if_splits)
qed (use assms in \<open>auto simp: pick_building_def split: if_splits\<close>)

lemma pick_building_absent:
  assumes "buildings = JArr [] \<or> (\<exists>c1 c2 cs. buildings = JArr (c1 # c2 # cs)) \<or> error_indicator buildings"
  shows "pick_building buildings = Inr JNull"
proof (cases buildings)
  case (JArr xs)
  with assms show ?thesis by (auto simp: pick_building_def)
next
  case (JObj kvs)
  with assms show ?thesis by (auto simp: pick_building_def)
qed (use assms in auto)

lemma pick_building_single:
  "cand \<noteq> JStr ''error'' \<Longrightarrow> pick_building (JArr [cand]) = py_item cand ''building_id''"
  by (auto simp: pick_building_def split: sum.splits)

lemma find_by_reference_first:
  assumes "net w (Reference_GET base_url ref_key ref_id) = Response code (Some buildings)"
    and "pick_building buildings = Inr b"
  shows "find_by_reference net base_url ref_key ref_id w =
           Some (b, w @ [Http (Reference_GET base_url ref_key ref_id) (Response code (Some buildings))])"
  unfolding find_by_reference_def
  by (rule retry_first) (simp add: find_by_reference_once_def send_def assms)

lemma find_by_reference_trace:
  assumes "find_by_reference net base_url ref_key ref_id w = Some (b, w')"
  shows "\<exists>evs code buildings.
           w' = w @ evs @ [Http (Reference_GET base_url ref_key ref_id) (Response code (Some buildings))]
           \<and> list_all (\<lambda>e. \<exists>rep. e = Http (Reference_GET base_url ref_key ref_id) rep) evs
           \<and> pick_building buildings = Inr b"
proof -
  let ?req = "Reference_GET base_url ref_key ref_id"
  have "\<exists>evs x. w' = w @ evs @ [x] \<and> list_all (\<lambda>e. \<exists>rep. e = Http ?req rep) evs
          \<and> (\<exists>code buildings. x = Http ?req (Response code (Some buildings)) \<and> pick_building buildings = Inr b)"
  proof (rule retry_trace [where f = "find_by_reference_once net base_url ref_key ref_id"])
    show "retry (find_by_reference_once net base_url ref_key ref_id) w = Some (b, w')"
      using assms by (simp add: find_by_reference_def)
  next
    fix s e s'
    assume "find_by_reference_once net base_url ref_key ref_id s = (Inl e, s')"
    then show "\<exists>x. s' = s @ [x] \<and> (\<exists>rep. x = Http ?req rep)"
      by (auto simp: find_by_reference_once_def send_def split: reply.splits option.splits)
  next
    fix s v s'
    assume "find_by_reference_once net base_url ref_key ref_id s = (Inr v, s')"
    then show "\<exists>x. s' = s @ [x] \<and> (\<exists>code buildings. x = Http ?req (Response code (Some buildings)) \<and> pick_building buildings = Inr v)"
      by (auto simp: find_by_reference_once_def send_def split: reply.splits option.splits)
  qed
  then show ?thesis by blast
qed

section \<open>Claims about the reference lookup\<close>

text \<open>
  Claim C3. For every lookup key and value, a reference lookup returns an identifier
  only if the response it returns on is a candidate list of exactly one element without
  error indicator, and the identifier is that candidate's \<open>building_id\<close>; whenever the
  response is such a list, the lookup returns that candidate's \<open>building_id\<close>; a response
  with zero candidates, with two or more candidates, or with an error indicator makes
  the lookup return \<open>JNull\<close> (Absent).
\<close>

theorem find_by_reference_unique_candidate:
  "(find_by_reference net base_url ref_key ref_id w = Some (b, w') \<and> b \<noteq> JNull \<longrightarrow>
      (\<exists>w0 code cand.
          w' = w0 @ [Http (Reference_GET base_url ref_key ref_id) (Response code (Some (JArr [cand])))]
          \<and> \<not> error_indicator (JArr [cand])
          \<and> py_item cand ''building_id'' = Inr b))
   \<and> (net w (Reference_GET base_url ref_key ref_id) = Response code (Some (JArr [cand]))
        \<and> \<not> error_indicator (JArr [cand]) \<and> py_item cand ''building_id'' = Inr b \<longrightarrow>
      find_by_reference net base_url ref_key ref_id w =
        Some (b, w @ [Http (Reference_GET base_url ref_key ref_id) (Response code (Some (JArr [cand])))]))
   \<and> (net w (Reference_GET base_url ref_key ref_id) = Response code (Some buildings)
        \<and> (buildings = JArr [] \<or> (\<exists>c1 c2 cs. buildings = JArr (c1 # c2 # cs))
             \<or> error_indicator buildings) \<longrightarrow>
      find_by_reference net base_url ref_key ref_id w =
        Some (JNull, w @ [Http (Reference_GET base_url ref_key ref_id) (Response code (Some buildings))]))"
proof (intro conjI impI)
  assume "find_by_reference net base_url ref_key ref_id w = Some (b, w') \<and> b \<noteq> JNull"
  then have ret: "find_by_reference net base_url ref_key ref_id w = Some (b, w')" and b: "b \<noteq> JNull"
    by simp_all
  from find_by_reference_trace[OF ret] obtain evs code buildings where
    w': "w' = w @ evs @ [Http (Reference_GET base_url ref_key ref_id) (Response code (Some buildings))]"
    and pick: "pick_building buildings = Inr b"
    by blast
  from pick_building_identifier[OF pick b] obtain cand where
    "buildings = JArr [cand]" "\<not> error_indicator buildings" "py_item cand ''building_id'' = Inr b"
    by blast
  with w' have "w' = (w @ evs) @ [Http (Reference_GET base_url ref_key ref_id) (Response code (Some (JArr [cand])))]
      \<and> \<not> error_indicator (JArr [cand]) \<and> py_item cand ''building_id'' = Inr b"
    by simp
  then show "\<exists>w0 code cand.
          w' = w0 @ [Http (Reference_GET base_url ref_key ref_id) (Response code (Some (JArr [cand])))]
          \<and> \<not> error_indicator (JArr [cand])
          \<and> py_item cand ''building_id'' = Inr b"
    by blast
next
  assume h: "net w (Reference_GET base_url ref_key ref_id) = Response code (Some (JArr [cand]))
        \<and> \<not> error_indicator (JArr [cand]) \<and> py_item cand ''building_id'' = Inr b"
  then have "pick_building (JArr [cand]) = Inr b"
    by (auto simp: pick_building_single)
  with h show "find_by_reference net base_url ref_key ref_id w =
        Some (b, w @ [Http (Reference_GET base_url ref_key ref_id) (Response code (Some (JArr [cand])))])"
    by (simp add: find_by_reference_first)
next
  assume h: "net w (Reference_GET base_url ref_key ref_id) = Response code (Some buildings)
        \<and> (buildings = JArr [] \<or> (\<exists>c1 c2 cs. buildings = JArr (c1 # c2 # cs))
             \<or> error_indicator buildings)"
  then have "pick_building buildings = Inr JNull"
    by (simp add: pick_building_absent)
  with h show "find_by_reference net base_url ref_key ref_id w =
        Some (JNull, w @ [Http (Reference_GET base_url ref_key ref_id) (Response code (Some buildings))])"
    by (simp add: find_by_reference_first)
qed


theorem find_by_reference_unique_candidate_witness:
  "find_by_reference registry ''b'' ''toid'' (JStr ''X123'') [] =
     Some (JStr ''7'', [Http (Reference_GET ''b'' ''toid'' (JStr ''X123''))
                          (Response 200 (Some (JArr [JObj [(''building_id'', JStr ''7'')]])))])
   \<and> find_by_reference registry ''b'' ''uprn'' (JStr ''1'') [] =
     Some (JNull, [Http (Reference_GET ''b'' ''uprn'' (JStr ''1'')) (Response 200 (Some (JArr [])))])
   \<and> (\<exists>w0 code cand.
         [Http (Reference_GET ''b'' ''toid'' (JStr ''X123''))
            (Response 200 (Some (JArr [JObj [(''building_id'', JStr ''7'')]])))] =
           w0 @ [Http (Reference_GET ''b'' ''toid'' (JStr ''X123'')) (Response code (Some (JArr [cand])))]
         \<and> \<not> error_indicator (JArr [cand])
         \<and> py_item cand ''building_id'' = Inr (JStr ''7''))"
proof -
  let ?get = "Reference_GET ''b'' ''toid'' (JStr ''X123'')"
  let ?cand = "JObj [(''building_id'', JStr ''7'')]"
  have one: "registry [] ?get = Response 200 (Some (JArr [?cand]))
      \<and> \<not> error_indicator (JArr [?cand]) \<and> py_item ?cand ''building_id'' = Inr (JStr ''7'')"
    by (simp add: registry_def)
  have none: "registry [] (Reference_GET ''b'' ''uprn'' (JStr ''1'')) = Response 200 (Some (JArr []))
      \<and> (JArr [] = JArr [] \<or> (\<exists>c1 c2 cs. JArr [] = JArr (c1 # c2 # cs)) \<or> error_indicator (JArr []))"
    by (simp add: registry_def)
  note T = find_by_reference_unique_candidate
  from one have r1: "find_by_reference registry ''b'' ''toid'' (JStr ''X123'') [] =
      Some (JStr ''7'', [] @ [Http ?get (Response 200 (Some (JArr [?cand])))])"
    by (rule T [THEN conjunct2, THEN conjunct1, rule_format])
  from none have r2: "find_by_reference registry ''b'' ''uprn'' (JStr ''1'') [] =
      Some (JNull, [] @ [Http (Reference_GET ''b'' ''uprn'' (JStr ''1'')) (Response 200 (Some (JArr [])))])"
    by (rule T [THEN conjunct2, THEN conjunct2, rule_format])
  from r1 have "find_by_reference registry ''b'' ''toid'' (JStr ''X123'') [] =
      Some (JStr ''7'', [Http ?get (Response 200 (Some (JArr [?cand])))]) \<and> JStr ''7'' \<noteq> JNull"
    by simp
  then have r3: "\<exists>w0 code cand.
         [Http ?get (Response 200 (Some (JArr [?cand])))] =
           w0 @ [Http ?get (Response code (Some (JArr [cand])))]
         \<and> \<not> error_indicator (JArr [cand])
         \<and> py_item cand ''building_id'' = Inr (JStr ''7'')"
    by (rule T [THEN conjunct1, rule_format])
  from r1 r2 r3 show ?thesis by simp
qed

section \<open>Claims about the resolver\<close>

lemma find_building_uprn_present:
  "map_of data ''uprn'' = Some uprn \<Longrightarrow>
   find_building_uprn net data base_url w =
     (case find_by_reference net base_url ''uprn'' uprn w of
        None \<Rightarrow> None
      | Some (b, w2) \<Rightarrow>
          if b \<noteq> JNull then Some (b, w2 @ [Print [JStr ''match_by_uprn'', uprn, b]])
          else Some (JNull, w2 @ [Print [JStr ''no_match'', JObj data]]))"
  by (simp add: find_building_uprn_def no_match_def print_def split: option.splits)

lemma find_building_uprn_missing:
  "map_of data ''uprn'' = None \<Longrightarrow>
   find_building_uprn net data base_url w = Some (JNull, w @ [Print [JStr ''no_match'', JObj data]])"
  by (simp add: find_building_uprn_def no_match_def print_def)

lemma find_building_no_id:
  "no_building_id data \<Longrightarrow> find_building net data base_url w = find_building_toid net data base_url w"
  by (auto simp: find_building_def no_building_id_def)

lemma find_building_toid_unresolved:
  "toid_unresolved net data base_url w w1 \<Longrightarrow>
   find_building_toid net data base_url w = find_building_uprn net data base_url w1"
  by (auto simp: find_building_toid_def toid_unresolved_def split: option.splits)

lemma registry_lookups:
  "find_by_reference registry ''b'' ''toid'' (JStr ''X123'') [] =
     Some (JStr ''7'', [Http (Reference_GET ''b'' ''toid'' (JStr ''X123''))
                          (Response 200 (Some (JArr [JObj [(''building_id'', JStr ''7'')]])))])"
  "find_by_reference registry ''b'' ''toid'' (JStr ''X555'') [] =
     Some (JNull, [Http (Reference_GET ''b'' ''toid'' (JStr ''X555''))
                     (Response 200 (Some (JArr [JObj [(''building_id'', JStr ''1'')],
                                                JObj [(''building_id'', JStr ''2'')]])))])"
  "find_by_reference registry ''b'' ''toid'' (JStr ''X999'') [] =
     Some (JNull, [Http (Reference_GET ''b'' ''toid'' (JStr ''X999'')) (Response 200 (Some (JArr [])))])"
  "find_by_reference registry ''b'' ''uprn'' (JStr ''100'') w =
     Some (JStr ''9'', w @ [Http (Reference_GET ''b'' ''uprn'' (JStr ''100''))
                          (Response 200 (Some (JArr [JObj [(''building_id'', JStr ''9'')]])))])"
  by (simp_all add: find_by_reference_def retry.simps find_by_reference_once_def send_def
        registry_def pick_building_def)

text \<open>
  Claim C2. For every row, the resolver evaluates its strategies in strict order and the
  first success wins: if the row contains a \<open>building_id\<close> column with a non-null value,
  that value is returned with no lookup (the world gains the report line only);
  otherwise, if the row contains a \<open>toid\<close> column, a reference lookup with key \<open>toid\<close>
  is performed and its non-null result is returned; otherwise, or if that lookup resolves
  to Absent, if the row contains a \<open>uprn\<close> column a reference lookup with key \<open>uprn\<close> is
  performed from there; otherwise the resolver returns Absent.
\<close>

theorem find_building_strategy_order:
  "(map_of data ''building_id'' = Some v \<and> v \<noteq> JNull \<longrightarrow>
      find_building net data base_url w = Some (v, w @ [Print [JStr ''match_by_building_id'', v]]))
   \<and> (no_building_id data \<and> map_of data ''toid'' = Some toid \<longrightarrow>
        (find_by_reference net base_url ''toid'' toid w = None \<longrightarrow>
           find_building net data base_url w = None)
        \<and> (\<forall>b w1. find_by_reference net base_url ''toid'' toid w = Some (b, w1) \<and> b \<noteq> JNull \<longrightarrow>
              find_building net data base_url w =
                Some (b, w1 @ [Print [JStr ''match_by_toid'', toid, b]])))
   \<and> (no_building_id data \<and> toid_unresolved net data base_url w w1
        \<and> map_of data ''uprn'' = Some uprn \<longrightarrow>
        find_building net data base_url w =
          (case find_by_reference net base_url ''uprn'' uprn w1 of
             None \<Rightarrow> None
           | Some (b, w2) \<Rightarrow>
               if b \<noteq> JNull then Some (b, w2 @ [Print [JStr ''match_by_uprn'', uprn, b]])
               else Some (JNull, w2 @ [Print [JStr ''no_match'', JObj data]])))
   \<and> (no_building_id data \<and> toid_unresolved net data base_url w w1
        \<and> map_of data ''uprn'' = None \<longrightarrow>
        find_building net data base_url w =
          Some (JNull, w1 @ [Print [JStr ''no_match'', JObj data]]))"
proof (intro conjI impI allI)
  assume "map_of data ''building_id'' = Some v \<and> v \<noteq> JNull"
  then show "find_building net data base_url w = Some (v, w @ [Print [JStr ''match_by_building_id'', v]])"
    by (simp add: find_building_def print_def)
next
  assume "no_building_id data \<and> map_of data ''toid'' = Some toid"
    and "find_by_reference net base_url ''toid'' toid w = None"
  then show "find_building net data base_url w = None"
    by (simp add: find_building_no_id find_building_toid_def)
next
  fix b w1
  assume "no_building_id data \<and> map_of data ''toid'' = Some toid"
    and "find_by_reference net base_url ''toid'' toid w = Some (b, w1) \<and> b \<noteq> JNull"
  then show "find_building net data base_url w = Some (b, w1 @ [Print [JStr ''match_by_toid'', toid, b]])"
    by (simp add: find_building_no_id find_building_toid_def print_def)
next
  assume "no_building_id data \<and> toid_unresolved net data base_url w w1
        \<and> map_of data ''uprn'' = Some uprn"
  then show "find_building net data base_url w =
          (case find_by_reference net base_url ''uprn'' uprn w1 of
             None \<Rightarrow> None
           | Some (b, w2) \<Rightarrow>
               if b \<noteq> JNull then Some (b, w2 @ [Print [JStr ''match_by_uprn'', uprn, b]])
               else Some (JNull, w2 @ [Print [JStr ''no_match'', JObj data]]))"
    using find_building_toid_unresolved [of net data base_url w w1]
    by (simp add: find_building_no_id find_building_uprn_present)
next
  assume "no_building_id data \<and> toid_unresolved net data base_url w w1
        \<and> map_of data ''uprn'' = None"
  then show "find_building net data base_url w =
          Some (JNull, w1 @ [Print [JStr ''no_match'', JObj data]])"
    using find_building_toid_unresolved [of net data base_url w w1]
    by (simp add: find_building_no_id find_building_uprn_missing)
qed

theorem find_building_strategy_order_witness:
  "find_building registry [(''building_id'', JStr ''42''), (''name'', JStr ''Town Hall'')] ''b'' [] =
     Some (JStr ''42'', [Print [JStr ''match_by_building_id'', JStr ''42'']])
   \<and> find_building registry [(''toid'', JStr ''X123''), (''height'', JStr ''10'')] ''b'' [] =
     Some (JStr ''7'',
       [Http (Reference_GET ''b'' ''toid'' (JStr ''X123''))
          (Response 200 (Some (JArr [JObj [(''building_id'', JStr ''7'')]]))),
        Print [JStr ''match_by_toid'', JStr ''X123'', JStr ''7'']])
   \<and> find_building registry [(''toid'', JStr ''X555''), (''uprn'', JStr ''100'')] ''b'' [] =
     Some (JStr ''9'',
       [Http (Reference_GET ''b'' ''toid'' (JStr ''X555''))
          (Response 200 (Some (JArr [JObj [(''building_id'', JStr ''1'')],
                                     JObj [(''building_id'', JStr ''2'')]]))),
        Http (Reference_GET ''b'' ''uprn'' (JStr ''100''))
          (Response 200 (Some (JArr [JObj [(''building_id'', JStr ''9'')]]))),
        Print [JStr ''match_by_uprn'', JStr ''100'', JStr ''9'']])
   \<and> find_building registry [(''toid'', JStr ''X999'')] ''b'' [] =
     Some (JNull,
       [Http (Reference_GET ''b'' ''toid'' (JStr ''X999'')) (Response 200 (Some (JArr []))),
        Print [JStr ''no_match'', JObj [(''toid'', JStr ''X999'')]]])"
proof -
  note T = find_building_strategy_order
  let ?A = "[(''building_id'', JStr ''42''), (''name'', JStr ''Town Hall'')]"
  let ?B = "[(''toid'', JStr ''X123''), (''height'', JStr ''10'')]"
  let ?C = "[(''toid'', JStr ''X555''), (''uprn'', JStr ''100'')]"
  let ?D = "[(''toid'', JStr ''X999'')]"
  have "map_of ?A ''building_id'' = Some (JStr ''42'') \<and> JStr ''42'' \<noteq> JNull"
    by simp
  then have a: "find_building registry ?A ''b'' [] =
      Some (JStr ''42'', [] @ [Print [JStr ''match_by_building_id'', JStr ''42'']])"
    by (rule T [THEN conjunct1, rule_format])
  have "no_building_id ?B \<and> map_of ?B ''toid'' = Some (JStr ''X123'')"
    by (simp add: no_building_id_def)
  moreover have "find_by_reference registry ''b'' ''toid'' (JStr ''X123'') [] =
      Some (JStr ''7'', [Http (Reference_GET ''b'' ''toid'' (JStr ''X123''))
          (Response 200 (Some (JArr [JObj [(''building_id'', JStr ''7'')]])))]) \<and> JStr ''7'' \<noteq> JNull"
    by (simp add: registry_lookups)
  ultimately have b: "find_building registry ?B ''b'' [] =
      Some (JStr ''7'', [Http (Reference_GET ''b'' ''toid'' (JStr ''X123''))
          (Response 200 (Some (JArr [JObj [(''building_id'', JStr ''7'')]])))]
         @ [Print [JStr ''match_by_toid'', JStr ''X123'', JStr ''7'']])"
    by (rule T [THEN conjunct2, THEN conjunct1, rule_format, THEN conjunct2, rule_format])
  have "no_building_id ?C
      \<and> toid_unresolved registry ?C ''b'' []
          [Http (Reference_GET ''b'' ''toid'' (JStr ''X555''))
            (Response 200 (Some (JArr [JObj [(''building_id'', JStr ''1'')],
                                       JObj [(''building_id'', JStr ''2'')]])))]
      \<and> map_of ?C ''uprn'' = Some (JStr ''100'')"
    by (simp add: no_building_id_def toid_unresolved_def registry_lookups)
  from T [THEN conjunct2, THEN conjunct2, THEN conjunct1, rule_format, OF this]
  have c: "find_building registry ?C ''b'' [] =
     Some (JStr ''9'',
       [Http (Reference_GET ''b'' ''toid'' (JStr ''X555''))
          (Response 200 (Some (JArr [JObj [(''building_id'', JStr ''1'')],
                                     JObj [(''building_id'', JStr ''2'')]]))),
        Http (Reference_GET ''b'' ''uprn'' (JStr ''100''))
          (Response 200 (Some (JArr [JObj [(''building_id'', JStr ''9'')]]))),
        Print [JStr ''match_by_uprn'', JStr ''100'', JStr ''9'']])"
    by (simp add: registry_lookups)
  have "no_building_id ?D
      \<and> toid_unresolved registry ?D ''b'' []
          [Http (Reference_GET ''b'' ''toid'' (JStr ''X999'')) (Response 200 (Some (JArr [])))]
      \<and> map_of ?D ''uprn'' = None"
    by (simp add: no_building_id_def toid_unresolved_def registry_lookups)
  from T [THEN conjunct2, THEN conjunct2, THEN conjunct2, rule_format, OF this]
  have d: "find_building registry ?D ''b'' [] =
     Some (JNull,
       [Http (Reference_GET ''b'' ''toid'' (JStr ''X999'')) (Response 200 (Some (JArr []))),
        Print [JStr ''no_match'', JObj ?D]])"
    by simp
  from a b c d show ?thesis by simp
qed

section \<open>Facts about the update and the row loop\<close>

lemma update_building_first:
  assumes "net w (Building_POST base_url building_id api_key data) = Response code (Some body)"
  shows "update_building net building_id data api_key base_url w =
           Some ((code, body),
                 w @ [Http (Building_POST base_url building_id api_key data) (Response code (Some body))])"
  unfolding update_building_def
  by (rule retry_first) (simp add: update_building_once_def send_def assms)

lemma update_building_trace:
  assumes "update_building net building_id data api_key base_url w = Some ((code, body), w')"
  shows "\<exists>fails.
           w' = w @ fails @ [Http (Building_POST base_url building_id api_key data) (Response code (Some body))]
           \<and> list_all (\<lambda>e. \<exists>rep. e = Http (Building_POST base_url building_id api_key data) rep
                              \<and> \<not> answered rep) fails"
proof -
  let ?req = "Building_POST base_url building_id api_key data"
  have "\<exists>evs x. w' = w @ evs @ [x]
          \<and> list_all (\<lambda>e. \<exists>rep. e = Http ?req rep \<and> \<not> answered rep) evs
          \<and> (case (code, body) of (c, d) \<Rightarrow> x = Http ?req (Response c (Some d)))"
  proof (rule retry_trace [where f = "update_building_once net building_id data api_key base_url"])
    show "retry (update_building_once net building_id data api_key base_url) w = Some ((code, body), w')"
      using assms by (simp add: update_building_def)
  next
    fix s e s'
    assume "update_building_once net building_id data api_key base_url s = (Inl e, s')"
    then show "\<exists>x. s' = s @ [x] \<and> (\<exists>rep. x = Http ?req rep \<and> \<not> answered rep)"
      by (auto simp: update_building_once_def send_def split: reply.splits option.splits)
  next
    fix s v s'
    assume "update_building_once net building_id data api_key base_url s = (Inr v, s')"
    then show "\<exists>x. s' = s @ [x] \<and> (case v of (c, d) \<Rightarrow> x = Http ?req (Response c (Some d)))"
      by (auto simp: update_building_once_def send_def split: reply.splits option.splits)
  qed
  then show ?thesis by auto
qed

lemma main_body_decode_error:
  "find_building net line base_url w = Some (b, w1) \<Longrightarrow>
   parse_json_columns loads line json_columns = Inl e \<Longrightarrow>
   main_body net loads base_url api_key json_columns line w = Some (Inl e, w1)"
  by (simp add: main_body_def)

lemma main_body_skipped:
  "find_building net line base_url w = Some (JNull, w1) \<Longrightarrow>
   parse_json_columns loads line json_columns = Inr line' \<Longrightarrow>
   main_body net loads base_url api_key json_columns line w = Some (Inr (), w1)"
  by (simp add: main_body_def)

lemma main_body_resolved:
  "find_building net line base_url w = Some (b, w1) \<Longrightarrow> b \<noteq> JNull \<Longrightarrow>
   parse_json_columns loads line json_columns = Inr line' \<Longrightarrow>
   main_body net loads base_url api_key json_columns line w =
     (case update_building net b (drop_empty_sust_dec line') api_key base_url w1 of
        None \<Rightarrow> None
      | Some ((code, body), w2) \<Rightarrow> Some (Inr (), report b code body w2))"
  by (simp add: main_body_def)

lemma report_line:
  "report b code body w = w @ [Print [JStr (if code \<noteq> 200 then ''ERROR'' else ''DEBUG''), b, JNum code, body]]"
  by (simp add: report_def print_def)

section \<open>Facts about decoding the JSON columns\<close>

lemma parse_json_columns_invalid:
  assumes "col \<in> set json_columns" and "map_of row col = Some (JStr s)" and "loads s = None"
  shows "\<exists>e. parse_json_columns loads row json_columns = Inl e"
  using assms
proof (induction json_columns arbitrary: row)
  case Nil
  then show ?case by simp
next
  case (Cons c cols)
  show ?case
  proof (cases "map_of row c")
    case None
    then show ?thesis by simp
  next
    case (Some cell)
    show ?thesis
    proof (cases "json_loads loads cell")
      case (Inl e)
      with Some show ?thesis by simp
    next
      case (Inr v)
      have "c \<noteq> col"
      proof
        assume "c = col"
        with Some Cons.prems have "cell = JStr s" by simp
        with Cons.prems Inr show False by (simp add: json_loads_def)
      qed
      with Cons.prems have "col \<in> set cols" "map_of (AList.update c v row) col = Some (JStr s)"
        by (simp_all add: update_conv')
      from Cons.IH[OF this(1) this(2) Cons.prems(3)] Some Inr show ?thesis by simp
    qed
  qed
qed

lemma parse_json_columns_keys:
  "parse_json_columns loads row json_columns = Inr row' \<Longrightarrow> map fst row' = map fst row"
proof (induction json_columns arbitrary: row)
  case Nil
  then show ?case by simp
next
  case (Cons c cols)
  then obtain cell v where cell: "map_of row c = Some cell" and v: "json_loads loads cell = Inr v"
    and rest: "parse_json_columns loads (AList.update c v row) cols = Inr row'"
    by (auto split: option.splits sum.splits)
  from cell have "c \<in> fst ` set row"
    by (auto dest: map_of_SomeD intro: rev_image_eqI)
  then have "map fst (AList.update c v row) = map fst row" by (simp add: update_keys)
  with Cons.IH[OF rest] show ?case by simp
qed

lemma parse_json_columns_other:
  "parse_json_columns loads row json_columns = Inr row' \<Longrightarrow> k \<notin> set json_columns \<Longrightarrow>
   map_of row' k = map_of row k"
proof (induction json_columns arbitrary: row)
  case Nil
  then show ?case by simp
next
  case (Cons c cols)
  then obtain cell v where cell: "map_of row c = Some cell" and v: "json_loads loads cell = Inr v"
    and rest: "parse_json_columns loads (AList.update c v row) cols = Inr row'"
    by (auto split: option.splits sum.splits)
  from Cons.prems have "k \<noteq> c" "k \<notin> set cols" by auto
  with Cons.IH[OF rest] show ?case by (simp add: update_conv')
qed

lemma parse_json_columns_valid:
  assumes "distinct json_columns"
    and "\<forall>c \<in> set json_columns. \<exists>s v. map_of row c = Some (JStr s) \<and> loads s = Some v"
  shows "\<exists>row'. parse_json_columns loads row json_columns = Inr row'
           \<and> (\<forall>c s. c \<in> set json_columns \<and> map_of row c = Some (JStr s) \<longrightarrow> map_of row' c = loads s)"
  using assms
proof (induction json_columns arbitrary: row)
  case Nil
  then show ?case by simp
next
  case (Cons c cols)
  from Cons.prems obtain s v where s: "map_of row c = Some (JStr s)" and v: "loads s = Some v"
    by auto
  let ?row = "AList.update c v row"
  from Cons.prems have d: "distinct cols" and c: "c \<notin> set cols" by simp_all
  have "\<forall>c' \<in> set cols. \<exists>s v. map_of ?row c' = Some (JStr s) \<and> loads s = Some v"
    using Cons.prems(2) c by (auto simp: update_conv')
  from Cons.IH[OF d this] obtain row' where row': "parse_json_columns loads ?row cols = Inr row'"
    and vals: "\<forall>c' s. c' \<in> set cols \<and> map_of ?row c' = Some (JStr s) \<longrightarrow> map_of row' c' = loads s"
    by blast
  have at_c: "map_of row' c = Some v"
    using parse_json_columns_other[OF row' c] by (simp add: update_conv')
  have "map_of row' c' = loads s'" if "c' \<in> set (c # cols)" "map_of row c' = Some (JStr s')" for c' s'
  proof (cases "c' = c")
    case True
    with that s have "s' = s" by simp
    with True at_c v show ?thesis by simp
  next
    case False
    with that have "c' \<in> set cols" "map_of ?row c' = Some (JStr s')"
      by (simp_all add: update_conv')
    with vals show ?thesis by blast
  qed
  then have "\<forall>c' s. c' \<in> set (c # cols) \<and> map_of row c' = Some (JStr s) \<longrightarrow> map_of row' c' = loads s"
    by blast
  moreover from s v row' have "parse_json_columns loads row (c # cols) = Inr row'"
    by (simp add: json_loads_def)
  ultimately show ?case by blast
qed

text \<open>The definitions that \<open>simp\<close> unfolds to run the script on the example data.\<close>

lemmas run_simps =
  main_body_def find_building_def find_building_toid_def find_building_uprn_def no_match_def
  find_by_reference_def find_by_reference_once_def pick_building_def
  update_building_def update_building_once_def retry.simps send_def print_def
  drop_empty_sust_dec_def report_def json_loads_def loads_example_def
  registry_def strict_registry_def flaky_registry_def

section \<open>Claims about reporting and decoding\<close>




text \<open>
  Claim C9. JSON-column decoding is applied to every row before the skip decision: for
  every row with a designated JSON column holding invalid JSON, the run aborts with the
  decoding error even when the resolver returned no identifier for that row; the rest of
  the rows is not processed and the world is as the resolver left it.
\<close>

theorem decode_before_skip:
  assumes "find_building net line base_url w = Some (JNull, w1)"
    and "col \<in> set json_columns" and "map_of line col = Some (JStr s)" and "loads s = None"
  shows "\<exists>e. parse_json_columns loads line json_columns = Inl e
           \<and> main net loads base_url api_key (line # reader) json_columns w = Some (Inl e, w1)"
proof -
  have "\<exists>e. parse_json_columns loads line json_columns = Inl e"
    using assms(2-4) by (rule parse_json_columns_invalid)
  then obtain e where e: "parse_json_columns loads line json_columns = Inl e"
    by blast
  with assms(1) have "main_body net loads base_url api_key json_columns line w = Some (Inl e, w1)"
    by (rule main_body_decode_error)
  with e show ?thesis by simp
qed

theorem decode_before_skip_witness:
  "main registry loads_example ''b'' ''k''
     [ [(''toid'', JStr ''X999''), (''tags'', JStr ''{'')],
      [(''building_id'', JStr ''42''), (''tags'', JStr ''[1,2,3]'')]] [''tags''] [] =
   Some (Inl JSONDecodeError,
     [Http (Reference_GET ''b'' ''toid'' (JStr ''X999'')) (Response 200 (Some (JArr []))),
      Print [JStr ''no_match'', JObj [(''toid'', JStr ''X999''), (''tags'', JStr ''{'')]]])"
proof -
  let ?line = "[(''toid'', JStr ''X999''), (''tags'', JStr ''{'')]"
  let ?w1 = "[Http (Reference_GET ''b'' ''toid'' (JStr ''X999'')) (Response 200 (Some (JArr []))),
              Print [JStr ''no_match'', JObj ?line]]"
  have absent: "find_building registry ?line ''b'' [] = Some (JNull, ?w1)"
    by (simp add: run_simps)
  have designated: "''tags'' \<in> set [''tags'']"
    by simp
  have cell: "map_of ?line ''tags'' = Some (JStr ''{'')"
    by simp
  have invalid: "loads_example ''{'' = None"
    by (simp add: loads_example_def)
  from decode_before_skip [where loads = loads_example and api_key = "''k''"
        and reader = "[ [(''building_id'', JStr ''42''), (''tags'', JStr ''[1,2,3]'')]]",
      OF absent designated cell invalid]
  show ?thesis
    by (auto simp: json_loads_def loads_example_def)
qed

text \<open>
  Claim C6. For every row, each column designated as JSON-typed has its string value
  parsed as JSON and replaced by the structured value, the other columns and the order
  of the columns being kept, and this decoded row (less an empty \<open>sust_dec\<close>) is the
  payload of the update; if the string of a designated column is not valid JSON, the
  decoding raises, nothing catches the error, and the run ends with it at that row.
  The designated names are taken as a set (\<open>distinct\<close>).
\<close>

theorem json_columns_decoded:
  "(distinct json_columns
      \<and> (\<forall>c \<in> set json_columns. \<exists>s v. map_of row c = Some (JStr s) \<and> loads s = Some v) \<longrightarrow>
      (\<exists>row'. parse_json_columns loads row json_columns = Inr row'
         \<and> map fst row' = map fst row
         \<and> (\<forall>c s. c \<in> set json_columns \<and> map_of row c = Some (JStr s) \<longrightarrow> map_of row' c = loads s)
         \<and> (\<forall>k. k \<notin> set json_columns \<longrightarrow> map_of row' k = map_of row k)
         \<and> (\<forall>b w1. find_building net row base_url w = Some (b, w1) \<and> b \<noteq> JNull \<longrightarrow>
               main_body net loads base_url api_key json_columns row w =
                 (case update_building net b (drop_empty_sust_dec row') api_key base_url w1 of
                    None \<Rightarrow> None
                  | Some ((code, body), w2) \<Rightarrow> Some (Inr (), report b code body w2)))))
   \<and> (col \<in> set json_columns \<and> map_of row col = Some (JStr s) \<and> loads s = None \<longrightarrow>
        (\<exists>e. parse_json_columns loads row json_columns = Inl e
           \<and> (\<forall>b w1 reader. find_building net row base_url w = Some (b, w1) \<longrightarrow>
                 main net loads base_url api_key (row # reader) json_columns w = Some (Inl e, w1))))"
proof (intro conjI impI)
  assume "distinct json_columns
      \<and> (\<forall>c \<in> set json_columns. \<exists>s v. map_of row c = Some (JStr s) \<and> loads s = Some v)"
  then obtain row' where row': "parse_json_columns loads row json_columns = Inr row'"
    and vals: "\<forall>c s. c \<in> set json_columns \<and> map_of row c = Some (JStr s) \<longrightarrow> map_of row' c = loads s"
    using parse_json_columns_valid [of json_columns row loads] by blast
  have "map fst row' = map fst row"
    using row' by (rule parse_json_columns_keys)
  moreover have "\<forall>k. k \<notin> set json_columns \<longrightarrow> map_of row' k = map_of row k"
    using row' by (simp add: parse_json_columns_other)
  moreover have "\<forall>b w1. find_building net row base_url w = Some (b, w1) \<and> b \<noteq> JNull \<longrightarrow>
               main_body net loads base_url api_key json_columns row w =
                 (case update_building net b (drop_empty_sust_dec row') api_key base_url w1 of
                    None \<Rightarrow> None
                  | Some ((code, body), w2) \<Rightarrow> Some (Inr (), report b code body w2))"
    using row' by (simp add: main_body_resolved)
  ultimately show "\<exists>row'. parse_json_columns loads row json_columns = Inr row'
         \<and> map fst row' = map fst row
         \<and> (\<forall>c s. c \<in> set json_columns \<and> map_of row c = Some (JStr s) \<longrightarrow> map_of row' c = loads s)
         \<and> (\<forall>k. k \<notin> set json_columns \<longrightarrow> map_of row' k = map_of row k)
         \<and> (\<forall>b w1. find_building net row base_url w = Some (b, w1) \<and> b \<noteq> JNull \<longrightarrow>
               main_body net loads base_url api_key json_columns row w =
                 (case update_building net b (drop_empty_sust_dec row') api_key base_url w1 of
                    None \<Rightarrow> None
                  | Some ((code, body), w2) \<Rightarrow> Some (Inr (), report b code body w2)))"
    using row' vals by blast
next
  assume "col \<in> set json_columns \<and> map_of row col = Some (JStr s) \<and> loads s = None"
  then obtain e where e: "parse_json_columns loads row json_columns = Inl e"
    using parse_json_columns_invalid [of col json_columns row s loads] by blast
  then have "\<forall>b w1 reader. find_building net row base_url w = Some (b, w1) \<longrightarrow>
                 main net loads base_url api_key (row # reader) json_columns w = Some (Inl e, w1)"
    by (simp add: main_body_decode_error)
  with e show "\<exists>e. parse_json_columns loads row json_columns = Inl e
           \<and> (\<forall>b w1 reader. find_building net row base_url w = Some (b, w1) \<longrightarrow>
                 main net loads base_url api_key (row # reader) json_columns w = Some (Inl e, w1))"
    by blast
qed

theorem json_columns_decoded_witness:
  "(\<exists>row'. parse_json_columns loads_example
              [(''building_id'', JStr ''42''), (''tags'', JStr ''[1,2,3]'')] [''tags''] = Inr row'
        \<and> map fst row' = [''building_id'', ''tags'']
        \<and> map_of row' ''tags'' = Some (JArr [JNum 1, JNum 2, JNum 3])
        \<and> map_of row' ''building_id'' = Some (JStr ''42''))
   \<and> main registry loads_example ''b'' ''k''
        [ [(''building_id'', JStr ''42''), (''tags'', JStr ''{'')],
         [(''building_id'', JStr ''43''), (''tags'', JStr ''[1,2,3]'')]] [''tags''] [] =
      Some (Inl JSONDecodeError, [Print [JStr ''match_by_building_id'', JStr ''42'']])"
proof -
  let ?good = "[(''building_id'', JStr ''42''), (''tags'', JStr ''[1,2,3]'')]"
  let ?bad = "[(''building_id'', JStr ''42''), (''tags'', JStr ''{'')]"
  note T = json_columns_decoded
  have "distinct [''tags'']
      \<and> (\<forall>c \<in> set [''tags'']. \<exists>s v. map_of ?good c = Some (JStr s) \<and> loads_example s = Some v)"
    by (simp add: loads_example_def)
  from T [where net = registry and base_url = "''b''" and w = "[]" and api_key = "''k''"
        and loads = loads_example, THEN conjunct1, rule_format, OF this]
  obtain row' where parsed: "parse_json_columns loads_example ?good [''tags''] = Inr row'"
    and keys: "map fst row' = map fst ?good"
    and decoded: "\<forall>c s. c \<in> set [''tags''] \<and> map_of ?good c = Some (JStr s) \<longrightarrow>
                    map_of row' c = loads_example s"
    and others: "\<forall>k. k \<notin> set [''tags''] \<longrightarrow> map_of row' k = map_of ?good k"
    by blast
  from decoded have "map_of row' ''tags'' = Some (JArr [JNum 1, JNum 2, JNum 3])"
    by (simp add: loads_example_def)
  moreover from others have "map_of row' ''building_id'' = Some (JStr ''42'')"
    by simp
  ultimately have good: "\<exists>row'. parse_json_columns loads_example ?good [''tags''] = Inr row'
        \<and> map fst row' = [''building_id'', ''tags'']
        \<and> map_of row' ''tags'' = Some (JArr [JNum 1, JNum 2, JNum 3])
        \<and> map_of row' ''building_id'' = Some (JStr ''42'')"
    using parsed keys by simp
  have "''tags'' \<in> set [''tags''] \<and> map_of ?bad ''tags'' = Some (JStr ''{'') \<and> loads_example ''{'' = None"
    by (simp add: loads_example_def)
  from T [where net = registry and base_url = "''b''" and w = "[]" and api_key = "''k''"
        and loads = loads_example, THEN conjunct2, rule_format, OF this]
  have bad: "main registry loads_example ''b'' ''k''
        [?bad, [(''building_id'', JStr ''43''), (''tags'', JStr ''[1,2,3]'')]] [''tags''] [] =
      Some (Inl JSONDecodeError, [Print [JStr ''match_by_building_id'', JStr ''42'']])"
    by (auto simp: json_loads_def loads_example_def find_building_def print_def)
  from good bad show ?thesis by blast
qed

section \<open>Facts about the events of a run\<close>

lemma find_by_reference_lookups:
  assumes "find_by_reference net base_url ref_key ref_id w = Some (b, w')"
  shows "\<exists>evs. w' = w @ evs \<and> list_all is_lookup evs"
proof -
  from find_by_reference_trace[OF assms] obtain evs code buildings where
    w': "w' = w @ evs @ [Http (Reference_GET base_url ref_key ref_id) (Response code (Some buildings))]"
    and evs: "list_all (\<lambda>e. \<exists>rep. e = Http (Reference_GET base_url ref_key ref_id) rep) evs"
    by blast
  from evs have "list_all is_lookup evs"
    by (auto simp: list_all_iff)
  with w' have "w' = w @ (evs @ [Http (Reference_GET base_url ref_key ref_id) (Response code (Some buildings))])
      \<and> list_all is_lookup (evs @ [Http (Reference_GET base_url ref_key ref_id) (Response code (Some buildings))])"
    by simp
  then show ?thesis by blast
qed

lemma find_building_uprn_trace:
  assumes "find_building_uprn net data base_url w = Some (b, w')"
  shows "\<exists>evs line. w' = w @ evs @ [Print line] \<and> list_all is_lookup evs
           \<and> resolver_report data b line"
proof (cases "map_of data ''uprn''")
  case None
  with assms have "w' = w @ [] @ [Print [JStr ''no_match'', JObj data]]" "b = JNull"
    by (simp_all add: find_building_uprn_def no_match_def print_def)
  then show ?thesis
    by (intro exI [of _ "[]"] exI [of _ "[JStr ''no_match'', JObj data]"])
       (simp add: resolver_report_def)
next
  case (Some uprn)
  with assms obtain c w1 where look: "find_by_reference net base_url ''uprn'' uprn w = Some (c, w1)"
    by (auto simp: find_building_uprn_def split: option.splits)
  from find_by_reference_lookups[OF look] obtain evs where evs: "w1 = w @ evs" "list_all is_lookup evs"
    by blast
  show ?thesis
  proof (cases "c = JNull")
    case True
    with assms Some look evs have "w' = w @ evs @ [Print [JStr ''no_match'', JObj data]]" "b = JNull"
      by (simp_all add: find_building_uprn_def no_match_def print_def)
    with evs show ?thesis
      by (intro exI [of _ evs] exI [of _ "[JStr ''no_match'', JObj data]"])
         (simp add: resolver_report_def)
  next
    case False
    with assms Some look evs have "w' = w @ evs @ [Print [JStr ''match_by_uprn'', uprn, b]]" "b \<noteq> JNull"
      by (auto simp: find_building_uprn_def print_def)
    with evs Some show ?thesis
      by (intro exI [of _ evs] exI [of _ "[JStr ''match_by_uprn'', uprn, b]"])
         (simp add: resolver_report_def)
  qed
qed

lemma find_building_toid_trace:
  assumes "find_building_toid net data base_url w = Some (b, w')"
  shows "\<exists>evs line. w' = w @ evs @ [Print line] \<and> list_all is_lookup evs
           \<and> resolver_report data b line"
proof (cases "map_of data ''toid''")
  case None
  with assms have "find_building_uprn net data base_url w = Some (b, w')"
    by (simp add: find_building_toid_def)
  then show ?thesis by (rule find_building_uprn_trace)
next
  case (Some toid)
  with assms obtain c w1 where look: "find_by_reference net base_url ''toid'' toid w = Some (c, w1)"
    by (auto simp: find_building_toid_def split: option.splits)
  from find_by_reference_lookups[OF look] obtain evs where evs: "w1 = w @ evs" "list_all is_lookup evs"
    by blast
  show ?thesis
  proof (cases "c = JNull")
    case True
    with assms Some look have "find_building_uprn net data base_url w1 = Some (b, w')"
      by (simp add: find_building_toid_def)
    from find_building_uprn_trace[OF this] obtain evs' line where
      "w' = w1 @ evs' @ [Print line]" "list_all is_lookup evs'" "resolver_report data b line"
      by blast
    with evs have "w' = w @ (evs @ evs') @ [Print line] \<and> list_all is_lookup (evs @ evs')
        \<and> resolver_report data b line"
      by simp
    then show ?thesis by blast
  next
    case False
    with assms Some look evs have "w' = w @ evs @ [Print [JStr ''match_by_toid'', toid, b]]" "b \<noteq> JNull"
      by (auto simp: find_building_toid_def print_def)
    with evs Some show ?thesis
      by (intro exI [of _ evs] exI [of _ "[JStr ''match_by_toid'', toid, b]"])
         (simp add: resolver_report_def)
  qed
qed

lemma find_building_trace:
  assumes "find_building net data base_url w = Some (b, w')"
  shows "\<exists>evs line. w' = w @ evs @ [Print line] \<and> list_all is_lookup evs
           \<and> resolver_report data b line"
proof (cases "no_building_id data")
  case True
  with assms have "find_building_toid net data base_url w = Some (b, w')"
    by (simp add: find_building_no_id)
  then show ?thesis by (rule find_building_toid_trace)
next
  case False
  then obtain v where v: "map_of data ''building_id'' = Some v" "v \<noteq> JNull"
    by (auto simp: no_building_id_def)
  with assms have "w' = w @ [] @ [Print [JStr ''match_by_building_id'', b]]" "b = v"
    by (auto simp: find_building_def print_def)
  with v show ?thesis
    by (intro exI [of _ "[]"] exI [of _ "[JStr ''match_by_building_id'', b]"])
       (simp add: resolver_report_def)
qed

lemma resolver_report_output_line: "resolver_report data b line \<Longrightarrow> output_line line"
  by (auto simp: resolver_report_def split: if_splits option.splits)

lemma lookups_expected: "list_all is_lookup evs \<Longrightarrow> list_all expected_event evs"
  by (induction evs) (auto elim: is_lookup.elims)



lemma main_body_cases:
  assumes fb: "find_building net line base_url w = Some (b, w1)"
    and mb: "main_body net loads base_url api_key json_columns line w = Some (r, w')"
  shows "w' = w1
      \<or> (b \<noteq> JNull \<and> r = Inr ()
          \<and> (\<exists>line' fails code body.
                parse_json_columns loads line json_columns = Inr line'
                \<and> w' = w1 @ fails
                         @ [Http (Building_POST base_url b api_key (drop_empty_sust_dec line'))
                              (Response code (Some body)),
                            Print [JStr (if code \<noteq> 200 then ''ERROR'' else ''DEBUG''), b, JNum code, body]]
                \<and> list_all (\<lambda>e. \<exists>rep. e = Http (Building_POST base_url b api_key
                                                      (drop_empty_sust_dec line')) rep
                                   \<and> \<not> answered rep) fails))"
proof (cases "parse_json_columns loads line json_columns")
  case (Inl e)
  with fb mb show ?thesis by (simp add: main_body_decode_error)
next
  case (Inr line')
  show ?thesis
  proof (cases "b = JNull")
    case True
    with fb mb Inr show ?thesis by (simp add: main_body_skipped)
  next
    case False
    with fb mb Inr obtain code body w2 where
      up: "update_building net b (drop_empty_sust_dec line') api_key base_url w1 = Some ((code, body), w2)"
      and res: "r = Inr ()" "w' = report b code body w2"
      by (auto simp: main_body_resolved split: option.splits)
    from update_building_trace[OF up] obtain fails where
      "w2 = w1 @ fails @ [Http (Building_POST base_url b api_key (drop_empty_sust_dec line'))
                            (Response code (Some body))]"
      "list_all (\<lambda>e. \<exists>rep. e = Http (Building_POST base_url b api_key (drop_empty_sust_dec line')) rep
                          \<and> \<not> answered rep) fails"
      by blast
    with res False Inr show ?thesis
      by (auto simp: report_line)
  qed
qed

lemma unanswered_expected:
  "list_all (\<lambda>e. \<exists>rep. e = Http req rep \<and> \<not> answered rep) fails \<Longrightarrow> list_all expected_event fails"
  by (auto simp: list_all_iff)


lemma main_body_events:
  assumes "main_body net loads base_url api_key json_columns line w = Some (r, w')"
  shows "\<exists>evs. w' = w @ evs \<and> list_all expected_event evs"
proof -
  from assms obtain b w1 where fb: "find_building net line base_url w = Some (b, w1)"
    by (auto simp: main_body_def split: option.splits)
  from find_building_trace[OF fb] obtain evs line0 where
    w1: "w1 = w @ evs @ [Print line0]" and evs: "list_all is_lookup evs"
    and rep: "resolver_report line b line0"
    by blast
  have ok1: "list_all expected_event (evs @ [Print line0])"
    using evs rep by (simp add: lookups_expected resolver_report_output_line)
  from main_body_cases[OF fb assms] show ?thesis
  proof
    assume "w' = w1"
    with w1 ok1 show ?thesis by simp
  next
    assume "b \<noteq> JNull \<and> r = Inr ()
          \<and> (\<exists>line' fails code body.
                parse_json_columns loads line json_columns = Inr line'
                \<and> w' = w1 @ fails
                         @ [Http (Building_POST base_url b api_key (drop_empty_sust_dec line'))
                              (Response code (Some body)),
                            Print [JStr (if code \<noteq> 200 then ''ERROR'' else ''DEBUG''), b, JNum code, body]]
                \<and> list_all (\<lambda>e. \<exists>rep. e = Http (Building_POST base_url b api_key
                                                      (drop_empty_sust_dec line')) rep
                                   \<and> \<not> answered rep) fails)"
    then obtain line' fails code body where
      w': "w' = w1 @ fails
                 @ [Http (Building_POST base_url b api_key (drop_empty_sust_dec line'))
                      (Response code (Some body)),
                    Print [JStr (if code \<noteq> 200 then ''ERROR'' else ''DEBUG''), b, JNum code, body]]"
      and fails: "list_all (\<lambda>e. \<exists>rep. e = Http (Building_POST base_url b api_key
                                                      (drop_empty_sust_dec line')) rep
                                   \<and> \<not> answered rep) fails"
      by blast
    let ?tail = "fails @ [Http (Building_POST base_url b api_key (drop_empty_sust_dec line'))
                      (Response code (Some body)),
                    Print [JStr (if code \<noteq> 200 then ''ERROR'' else ''DEBUG''), b, JNum code, body]]"
    have "list_all expected_event ?tail"
      using unanswered_expected[OF fails] by simp
    with ok1 have "list_all expected_event ((evs @ [Print line0]) @ ?tail)"
      by simp
    moreover from w' w1 have "w' = w @ ((evs @ [Print line0]) @ ?tail)"
      by simp
    ultimately show ?thesis by blast
  qed
qed

lemma main_events:
  "main net loads base_url api_key reader json_columns w = Some (r, w') \<Longrightarrow>
   \<exists>evs. w' = w @ evs \<and> list_all expected_event evs"
proof (induction reader arbitrary: w)
  case Nil
  then show ?case by simp
next
  case (Cons line reader)
  then obtain r1 w1 where mb: "main_body net loads base_url api_key json_columns line w = Some (r1, w1)"
    by (auto split: option.splits)
  from main_body_events[OF mb] obtain evs where evs: "w1 = w @ evs" "list_all expected_event evs"
    by blast
  show ?case
  proof (cases r1)
    case (Inl e)
    with Cons.prems mb have "w' = w1" by simp
    with evs show ?thesis by blast
  next
    case (Inr u)
    with Cons.prems mb have "main net loads base_url api_key reader json_columns w1 = Some (r, w')"
      by simp
    from Cons.IH[OF this] obtain evs' where "w' = w1 @ evs'" "list_all expected_event evs'"
      by blast
    with evs have "w' = w @ (evs @ evs') \<and> list_all expected_event (evs @ evs')"
      by simp
    then show ?thesis by blast
  qed
qed

lemma lookup_not_update: "is_lookup e \<Longrightarrow> \<not> is_update e"
  by (cases e rule: is_lookup.cases) simp_all


lemma updates_same_request:
  assumes "list_all is_lookup evs"
    and "list_all (\<lambda>e. \<exists>rep. e = Http (Building_POST base_url b api_key payload) rep \<and> \<not> answered rep) fails"
    and "e \<in> set ((evs @ [Print line0]) @ fails @ [Http (Building_POST base_url b api_key payload) rep, Print line1])"
    and "is_update e"
  shows "\<exists>rep. e = Http (Building_POST base_url b api_key payload) rep"
proof -
  from assms(1) have "\<forall>x \<in> set evs. \<not> is_update x"
    by (simp add: list_all_iff lookup_not_update)
  with assms(2-4) show ?thesis
    by (auto simp: list_all_iff)
qed

lemma drop_empty_sust_dec_other:
  "k \<noteq> ''sust_dec'' \<Longrightarrow> map_of (drop_empty_sust_dec line) k = map_of line k"
  by (simp add: drop_empty_sust_dec_def delete_conv')

lemma drop_empty_sust_dec_keys:
  assumes "k \<noteq> ''sust_dec''" and "k \<in> fst ` set line"
  shows "k \<in> fst ` set (drop_empty_sust_dec line)"
proof -
  have "set (map fst (AList.delete ''sust_dec'' line)) = set (map fst line) - {''sust_dec''}"
    by (simp only: delete_keys set_removeAll)
  with assms show ?thesis
    by (auto simp: drop_empty_sust_dec_def)
qed

lemma main_body_resolved_trace:
  assumes fb: "find_building net line base_url w = Some (b, w1)" and b: "b \<noteq> JNull"
    and parsed: "parse_json_columns loads line json_columns = Inr line'"
    and mb: "main_body net loads base_url api_key json_columns line w = Some (r, w')"
  shows "\<exists>evs line0 fails code body.
           w1 = w @ evs @ [Print line0] \<and> list_all is_lookup evs
           \<and> w' = w1 @ fails
                    @ [Http (Building_POST base_url b api_key (drop_empty_sust_dec line'))
                         (Response code (Some body)),
                       Print [JStr (if code \<noteq> 200 then ''ERROR'' else ''DEBUG''), b, JNum code, body]]
           \<and> list_all (\<lambda>e. \<exists>rep. e = Http (Building_POST base_url b api_key
                                                 (drop_empty_sust_dec line')) rep
                              \<and> \<not> answered rep) fails"
proof -
  from find_building_trace[OF fb] obtain evs line0 where
    w1: "w1 = w @ evs @ [Print line0]" "list_all is_lookup evs"
    by blast
  from fb b parsed mb obtain code body w2 where
    up: "update_building net b (drop_empty_sust_dec line') api_key base_url w1 = Some ((code, body), w2)"
    and res: "w' = report b code body w2"
    by (auto simp: main_body_resolved split: option.splits)
  from update_building_trace[OF up] obtain fails where
    "w2 = w1 @ fails @ [Http (Building_POST base_url b api_key (drop_empty_sust_dec line'))
                          (Response code (Some body))]"
    "list_all (\<lambda>e. \<exists>rep. e = Http (Building_POST base_url b api_key (drop_empty_sust_dec line')) rep
                        \<and> \<not> answered rep) fails"
    by blast
  with res w1 show ?thesis
    by (auto simp: report_line)
qed

lemma update_building_starts:
  assumes "update_building net building_id data api_key base_url w = Some (res, w')"
  shows "\<exists>rep evs. w' = w @ Http (Building_POST base_url building_id api_key data) rep # evs"
proof -
  obtain code body where res: "res = (code, body)" by (cases res)
  from update_building_trace[OF assms[unfolded res]] obtain fails where
    w': "w' = w @ fails @ [Http (Building_POST base_url building_id api_key data) (Response code (Some body))]"
    and fails: "list_all (\<lambda>e. \<exists>rep. e = Http (Building_POST base_url building_id api_key data) rep
                            \<and> \<not> answered rep) fails"
    by blast
  show ?thesis
  proof (cases fails)
    case Nil
    with w' show ?thesis by simp
  next
    case (Cons x xs)
    with fails obtain rep where "x = Http (Building_POST base_url building_id api_key data) rep"
      by auto
    with Cons w' show ?thesis by simp
  qed
qed

section \<open>Claims about the output lines\<close>

text \<open>
  The statement of claim C8 that every resolution attempt, successful or failed, is
  reported with its strategy name and matched value fails: for a row whose \<open>toid\<close>
  lookup finds two candidates and whose \<open>uprn\<close> lookup finds one, the only line printed
  is the \<open>match_by_uprn\<close> line, and nothing reports the \<open>toid\<close> attempt.
\<close>

theorem every_attempt_reported_counterexample:
  "find_building registry [(''toid'', JStr ''X555''), (''uprn'', JStr ''100'')] ''b'' [] =
     Some (JStr ''9'',
       [Http (Reference_GET ''b'' ''toid'' (JStr ''X555''))
          (Response 200 (Some (JArr [JObj [(''building_id'', JStr ''1'')],
                                     JObj [(''building_id'', JStr ''2'')]]))),
        Http (Reference_GET ''b'' ''uprn'' (JStr ''100''))
          (Response 200 (Some (JArr [JObj [(''building_id'', JStr ''9'')]]))),
        Print [JStr ''match_by_uprn'', JStr ''100'', JStr ''9'']])
   \<and> \<not> every_attempt_reported
       [Http (Reference_GET ''b'' ''toid'' (JStr ''X555''))
          (Response 200 (Some (JArr [JObj [(''building_id'', JStr ''1'')],
                                     JObj [(''building_id'', JStr ''2'')]]))),
        Http (Reference_GET ''b'' ''uprn'' (JStr ''100''))
          (Response 200 (Some (JArr [JObj [(''building_id'', JStr ''9'')]]))),
        Print [JStr ''match_by_uprn'', JStr ''100'', JStr ''9'']]"
  by (simp add: run_simps every_attempt_reported_def)

text \<open>
  Claim C8, amended. For every row the resolver prints exactly one line, after all its
  lookups: the line of the strategy that matched with the matched value and the
  identifier, or \<open>no_match\<close> with the row when nothing matched; a lookup that fails
  prints nothing of its own. Every line printed by a run has one of the forms
  \<open>match_by_building_id id\<close>, \<open>match_by_toid value id\<close>, \<open>match_by_uprn value id\<close>,
  \<open>no_match row\<close>, \<open>ERROR id status body\<close>, \<open>DEBUG id status body\<close>.
\<close>

theorem resolver_output_lines:
  "(find_building net data base_url w = Some (b, w1) \<longrightarrow>
      (\<exists>evs line. w1 = w @ evs @ [Print line] \<and> list_all is_lookup evs
         \<and> resolver_report data b line))
   \<and> (main net loads base_url api_key reader json_columns w = Some (r, w') \<longrightarrow>
        (\<exists>evs. w' = w @ evs \<and> list_all expected_event evs))"
  by (blast dest: find_building_trace main_events)

theorem resolver_output_lines_witness:
  "(\<exists>evs line.
      [Http (Reference_GET ''b'' ''toid'' (JStr ''X555''))
          (Response 200 (Some (JArr [JObj [(''building_id'', JStr ''1'')],
                                     JObj [(''building_id'', JStr ''2'')]]))),
       Http (Reference_GET ''b'' ''uprn'' (JStr ''100''))
          (Response 200 (Some (JArr [JObj [(''building_id'', JStr ''9'')]]))),
       Print [JStr ''match_by_uprn'', JStr ''100'', JStr ''9'']] = [] @ evs @ [Print line]
      \<and> list_all is_lookup evs
      \<and> resolver_report [(''toid'', JStr ''X555''), (''uprn'', JStr ''100'')] (JStr ''9'') line)
   \<and> (\<exists>evs.
        [Http (Reference_GET ''b'' ''toid'' (JStr ''X999'')) (Response 200 (Some (JArr []))),
         Print [JStr ''no_match'', JObj [(''toid'', JStr ''X999'')]],
         Print [JStr ''match_by_building_id'', JStr ''42''],
         Http (Building_POST ''b'' (JStr ''42'') ''k'' [(''building_id'', JStr ''42'')])
           (Response 422 (Some (JObj [(''error'', JStr ''invalid'')]))),
         Print [JStr ''ERROR'', JStr ''42'', JNum 422, JObj [(''error'', JStr ''invalid'')]]]
          = [] @ evs
        \<and> list_all expected_event evs)"
proof -
  have resolved:
    "find_building registry [(''toid'', JStr ''X555''), (''uprn'', JStr ''100'')] ''b'' [] =
       Some (JStr ''9'',
         [Http (Reference_GET ''b'' ''toid'' (JStr ''X555''))
            (Response 200 (Some (JArr [JObj [(''building_id'', JStr ''1'')],
                                       JObj [(''building_id'', JStr ''2'')]]))),
          Http (Reference_GET ''b'' ''uprn'' (JStr ''100''))
            (Response 200 (Some (JArr [JObj [(''building_id'', JStr ''9'')]]))),
          Print [JStr ''match_by_uprn'', JStr ''100'', JStr ''9'']])"
    by (simp add: run_simps)
  have run:
    "main strict_registry loads_example ''b'' ''k''
       [ [(''toid'', JStr ''X999'')], [(''building_id'', JStr ''42'')]] [] [] =
     Some (Inr (),
        [Http (Reference_GET ''b'' ''toid'' (JStr ''X999'')) (Response 200 (Some (JArr []))),
         Print [JStr ''no_match'', JObj [(''toid'', JStr ''X999'')]],
         Print [JStr ''match_by_building_id'', JStr ''42''],
         Http (Building_POST ''b'' (JStr ''42'') ''k'' [(''building_id'', JStr ''42'')])
           (Response 422 (Some (JObj [(''error'', JStr ''invalid'')]))),
         Print [JStr ''ERROR'', JStr ''42'', JNum 422, JObj [(''error'', JStr ''invalid'')]]])"
    by (simp add: run_simps)
  note T = resolver_output_lines
  from T [THEN conjunct1, rule_format, OF resolved] T [THEN conjunct2, rule_format, OF run]
  show ?thesis by blast
qed

section \<open>Claims about the update submission\<close>




text \<open>
  The statement of claim C1 that the payload is the row with the identifier columns
  removed fails: for the row with \<open>toid = X123\<close> and \<open>height = 10\<close> resolving to 7, the
  body posted still holds the \<open>toid\<close> column.
\<close>

theorem payload_without_identifiers_counterexample:
  "main registry loads_example ''b'' ''k'' [ [(''toid'', JStr ''X123''), (''height'', JStr ''10'')]] [] [] =
     Some (Inr (),
       [Http (Reference_GET ''b'' ''toid'' (JStr ''X123''))
          (Response 200 (Some (JArr [JObj [(''building_id'', JStr ''7'')]]))),
        Print [JStr ''match_by_toid'', JStr ''X123'', JStr ''7''],
        Http (Building_POST ''b'' (JStr ''7'') ''k''
                [(''toid'', JStr ''X123''), (''height'', JStr ''10'')])
          (Response 200 (Some (JObj []))),
        Print [JStr ''DEBUG'', JStr ''7'', JNum 200, JObj []]])
   \<and> without_identifier_columns [(''toid'', JStr ''X123''), (''height'', JStr ''10'')] =
       [(''height'', JStr ''10'')]
   \<and> [(''toid'', JStr ''X123''), (''height'', JStr ''10'')] \<noteq>
       without_identifier_columns [(''toid'', JStr ''X123''), (''height'', JStr ''10'')]"
  by (simp add: run_simps without_identifier_columns_def identifier_columns_def)

text \<open>
  Claim C1, amended. For every row for which an identifier is resolved and whose JSON
  columns decode, the payload passed to the update submission is the decoded row less an
  empty \<open>sust_dec\<close> cell: every update request of the row carries it, the identifier
  columns \<open>building_id\<close>, \<open>toid\<close> and \<open>uprn\<close> of the row are still columns of it, and
  every column that is neither a JSON column nor \<open>sust_dec\<close> has the cell of the row.
\<close>

theorem payload_keeps_identifier_columns:
  assumes fb: "find_building net line base_url w = Some (b, w1)" and b: "b \<noteq> JNull"
    and parsed: "parse_json_columns loads line json_columns = Inr line'"
  shows "main_body net loads base_url api_key json_columns line w =
           (case update_building net b (drop_empty_sust_dec line') api_key base_url w1 of
              None \<Rightarrow> None
            | Some ((code, body), w2) \<Rightarrow> Some (Inr (), report b code body w2))
       \<and> (main_body net loads base_url api_key json_columns line w = Some (r, w') \<longrightarrow>
            (\<exists>evs. w' = w @ evs \<and> list_ex is_update evs
               \<and> (\<forall>e \<in> set evs. is_update e \<longrightarrow>
                     (\<exists>rep. e = Http (Building_POST base_url b api_key (drop_empty_sust_dec line')) rep))))
       \<and> (\<forall>k \<in> set identifier_columns.
             k \<in> fst ` set line \<longrightarrow> k \<in> fst ` set (drop_empty_sust_dec line'))
       \<and> (\<forall>k. k \<notin> set json_columns \<and> k \<noteq> ''sust_dec'' \<longrightarrow>
             map_of (drop_empty_sust_dec line') k = map_of line k)"
proof (intro conjI impI ballI allI)
  show "main_body net loads base_url api_key json_columns line w =
           (case update_building net b (drop_empty_sust_dec line') api_key base_url w1 of
              None \<Rightarrow> None
            | Some ((code, body), w2) \<Rightarrow> Some (Inr (), report b code body w2))"
    using fb b parsed by (rule main_body_resolved)
next
  assume mb: "main_body net loads base_url api_key json_columns line w = Some (r, w')"
  let ?req = "Building_POST base_url b api_key (drop_empty_sust_dec line')"
  from main_body_resolved_trace[OF fb b parsed mb] obtain evs line0 fails code body where
    w1: "w1 = w @ evs @ [Print line0]" and evs: "list_all is_lookup evs"
    and w': "w' = w1 @ fails @ [Http ?req (Response code (Some body)),
               Print [JStr (if code \<noteq> 200 then ''ERROR'' else ''DEBUG''), b, JNum code, body]]"
    and fails: "list_all (\<lambda>e. \<exists>rep. e = Http ?req rep \<and> \<not> answered rep) fails"
    by blast
  let ?all = "(evs @ [Print line0]) @ fails @ [Http ?req (Response code (Some body)),
               Print [JStr (if code \<noteq> 200 then ''ERROR'' else ''DEBUG''), b, JNum code, body]]"
  from w' w1 have "w' = w @ ?all" by simp
  moreover have "list_ex is_update ?all"
    by (simp add: list_ex_iff)
  moreover have "\<forall>e \<in> set ?all. is_update e \<longrightarrow> (\<exists>rep. e = Http ?req rep)"
    using updates_same_request[OF evs fails] by blast
  ultimately show "\<exists>evs. w' = w @ evs \<and> list_ex is_update evs
               \<and> (\<forall>e \<in> set evs. is_update e \<longrightarrow> (\<exists>rep. e = Http ?req rep))"
    by blast
next
  fix k
  assume "k \<in> set identifier_columns" and "k \<in> fst ` set line"
  moreover have "map fst line' = map fst line"
    using parsed by (rule parse_json_columns_keys)
  then have "fst ` set line' = fst ` set line"
    by (metis list.set_map)
  ultimately show "k \<in> fst ` set (drop_empty_sust_dec line')"
    by (auto simp: identifier_columns_def intro!: drop_empty_sust_dec_keys)
next
  fix k
  assume "k \<notin> set json_columns \<and> k \<noteq> ''sust_dec''"
  then show "map_of (drop_empty_sust_dec line') k = map_of line k"
    using parse_json_columns_other[OF parsed, of k] by (simp add: drop_empty_sust_dec_other)
qed

theorem payload_keeps_identifier_columns_witness:
  "main_body registry loads_example ''b'' ''k'' []
     [(''toid'', JStr ''X123''), (''height'', JStr ''10''), (''sust_dec'', JStr '''')] [] =
     Some (Inr (),
       [Http (Reference_GET ''b'' ''toid'' (JStr ''X123''))
          (Response 200 (Some (JArr [JObj [(''building_id'', JStr ''7'')]]))),
        Print [JStr ''match_by_toid'', JStr ''X123'', JStr ''7''],
        Http (Building_POST ''b'' (JStr ''7'') ''k''
                [(''toid'', JStr ''X123''), (''height'', JStr ''10'')])
          (Response 200 (Some (JObj []))),
        Print [JStr ''DEBUG'', JStr ''7'', JNum 200, JObj []]])
   \<and> ''toid'' \<in> fst ` set (drop_empty_sust_dec
         [(''toid'', JStr ''X123''), (''height'', JStr ''10''), (''sust_dec'', JStr '''')])
   \<and> map_of (drop_empty_sust_dec
         [(''toid'', JStr ''X123''), (''height'', JStr ''10''), (''sust_dec'', JStr '''')]) ''toid''
       = Some (JStr ''X123'')"
proof -
  let ?line = "[(''toid'', JStr ''X123''), (''height'', JStr ''10''), (''sust_dec'', JStr '''')]"
  let ?w1 = "[Http (Reference_GET ''b'' ''toid'' (JStr ''X123''))
                (Response 200 (Some (JArr [JObj [(''building_id'', JStr ''7'')]]))),
              Print [JStr ''match_by_toid'', JStr ''X123'', JStr ''7'']]"
  have resolved: "find_building registry ?line ''b'' [] = Some (JStr ''7'', ?w1)"
    by (simp add: run_simps)
  have id: "JStr ''7'' \<noteq> JNull"
    by simp
  have decoded: "parse_json_columns loads_example ?line [] = Inr ?line"
    by simp
  note T = payload_keeps_identifier_columns [where loads = loads_example and api_key = "''k''",
      OF resolved id decoded]
  from T [THEN conjunct1]
  have "main_body registry loads_example ''b'' ''k'' [] ?line [] =
     Some (Inr (),
       [Http (Reference_GET ''b'' ''toid'' (JStr ''X123''))
          (Response 200 (Some (JArr [JObj [(''building_id'', JStr ''7'')]]))),
        Print [JStr ''match_by_toid'', JStr ''X123'', JStr ''7''],
        Http (Building_POST ''b'' (JStr ''7'') ''k''
                [(''toid'', JStr ''X123''), (''height'', JStr ''10'')])
          (Response 200 (Some (JObj []))),
        Print [JStr ''DEBUG'', JStr ''7'', JNum 200, JObj []]])"
    by (simp add: run_simps)
  moreover from T [THEN conjunct2, THEN conjunct2, THEN conjunct1]
  have "''toid'' \<in> fst ` set (drop_empty_sust_dec ?line)"
    by (simp add: identifier_columns_def)
  moreover from T [THEN conjunct2, THEN conjunct2, THEN conjunct2, rule_format, of "''toid''"]
  have "map_of (drop_empty_sust_dec ?line) ''toid'' = Some (JStr ''X123'')"
    by simp
  ultimately show ?thesis by blast
qed

text \<open>
  The statement of claim C10 that an update is submitted for every row whose
  \<open>building_id\<close> cell is the empty string fails: when a designated JSON column of the
  row holds invalid JSON the run ends after the resolver's line and no update is sent.
\<close>

theorem empty_building_id_update_counterexample:
  "map_of [(''building_id'', JStr ''''), (''tags'', JStr ''{'')] ''building_id'' = Some (JStr '''')
   \<and> main registry loads_example ''b'' ''k''
        [ [(''building_id'', JStr ''''), (''tags'', JStr ''{'')]] [''tags''] [] =
      Some (Inl JSONDecodeError, [Print [JStr ''match_by_building_id'', JStr '''']])
   \<and> \<not> list_ex is_update [Print [JStr ''match_by_building_id'', JStr '''']]"
  by (simp add: run_simps)

text \<open>
  Claim C10, amended. The resolver rejects a \<open>building_id\<close> value only when it is null:
  for every row whose \<open>building_id\<close> cell is the empty string, that empty string is
  returned as the resolved identifier with no lookup by \<open>toid\<close> or \<open>uprn\<close>; if the JSON
  columns of the row decode, \<open>update_building\<close> is called with the empty identifier and
  the first request after the resolver's line is the update keyed by it; if they do not
  decode, the run ends with the decoding error and without an update.
\<close>

theorem empty_building_id_accepted:
  assumes "map_of line ''building_id'' = Some (JStr [])"
  shows "find_building net line base_url w =
           Some (JStr [], w @ [Print [JStr ''match_by_building_id'', JStr []]])
       \<and> (parse_json_columns loads line json_columns = Inr line' \<longrightarrow>
            main_body net loads base_url api_key json_columns line w =
              (case update_building net (JStr []) (drop_empty_sust_dec line') api_key base_url
                      (w @ [Print [JStr ''match_by_building_id'', JStr []]]) of
                 None \<Rightarrow> None
               | Some ((code, body), w2) \<Rightarrow> Some (Inr (), report (JStr []) code body w2)))
       \<and> (parse_json_columns loads line json_columns = Inr line'
            \<and> main_body net loads base_url api_key json_columns line w = Some (r, w') \<longrightarrow>
            (\<exists>rep evs. w' = w @ [Print [JStr ''match_by_building_id'', JStr []],
                                 Http (Building_POST base_url (JStr []) api_key
                                         (drop_empty_sust_dec line')) rep] @ evs))
       \<and> (parse_json_columns loads line json_columns = Inl e \<longrightarrow>
            main_body net loads base_url api_key json_columns line w =
              Some (Inl e, w @ [Print [JStr ''match_by_building_id'', JStr []]]))"
proof -
  let ?w1 = "w @ [Print [JStr ''match_by_building_id'', JStr []]]"
  have fb: "find_building net line base_url w = Some (JStr [], ?w1)"
    using assms by (simp add: find_building_def print_def)
  have id: "JStr [] \<noteq> JNull"
    by simp
  have resolved: "main_body net loads base_url api_key json_columns line w =
              (case update_building net (JStr []) (drop_empty_sust_dec line') api_key base_url ?w1 of
                 None \<Rightarrow> None
               | Some ((code, body), w2) \<Rightarrow> Some (Inr (), report (JStr []) code body w2))"
    if "parse_json_columns loads line json_columns = Inr line'"
    using fb id that by (rule main_body_resolved)
  have submitted: "\<exists>rep evs. w' = w @ [Print [JStr ''match_by_building_id'', JStr []],
        Http (Building_POST base_url (JStr []) api_key (drop_empty_sust_dec line')) rep] @ evs"
    if p: "parse_json_columns loads line json_columns = Inr line'"
      and mb: "main_body net loads base_url api_key json_columns line w = Some (r, w')"
  proof -
    from mb resolved[OF p] obtain res w2 where
      up: "update_building net (JStr []) (drop_empty_sust_dec line') api_key base_url ?w1 = Some (res, w2)"
      and w': "w' = report (JStr []) (fst res) (snd res) w2"
      by (auto split: option.splits)
    from update_building_starts[OF up] obtain rep evs where
      "w2 = ?w1 @ Http (Building_POST base_url (JStr []) api_key (drop_empty_sust_dec line')) rep # evs"
      by blast
    with w' have "w' = w @ [Print [JStr ''match_by_building_id'', JStr []],
        Http (Building_POST base_url (JStr []) api_key (drop_empty_sust_dec line')) rep]
        @ (evs @ [Print [JStr (if fst res \<noteq> 200 then ''ERROR'' else ''DEBUG''), JStr [],
                         JNum (fst res), snd res]])"
      by (simp add: report_line)
    then show ?thesis by blast
  qed
  have aborted: "main_body net loads base_url api_key json_columns line w = Some (Inl e, ?w1)"
    if "parse_json_columns loads line json_columns = Inl e"
    using fb that by (rule main_body_decode_error)
  from fb resolved submitted aborted show ?thesis by blast
qed

theorem empty_building_id_accepted_witness:
  "find_building registry
     [(''building_id'', JStr ''''), (''toid'', JStr ''X123''), (''tags'', JStr ''[1,2,3]'')] ''b'' [] =
     Some (JStr '''', [Print [JStr ''match_by_building_id'', JStr '''']])
   \<and> main_body registry loads_example ''b'' ''k'' [''tags'']
       [(''building_id'', JStr ''''), (''toid'', JStr ''X123''), (''tags'', JStr ''[1,2,3]'')] [] =
     Some (Inr (),
       [Print [JStr ''match_by_building_id'', JStr ''''],
        Http (Building_POST ''b'' (JStr '''') ''k''
                [(''building_id'', JStr ''''), (''toid'', JStr ''X123''),
                 (''tags'', JArr [JNum 1, JNum 2, JNum 3])])
          (Response 200 (Some (JObj []))),
        Print [JStr ''DEBUG'', JStr '''', JNum 200, JObj []]])
   \<and> main_body registry loads_example ''b'' ''k'' [''tags'']
       [(''building_id'', JStr ''''), (''tags'', JStr ''nil'')] [] =
     Some (Inl JSONDecodeError, [Print [JStr ''match_by_building_id'', JStr '''']])"
proof -
  let ?line = "[(''building_id'', JStr ''''), (''toid'', JStr ''X123''), (''tags'', JStr ''[1,2,3]'')]"
  let ?line' = "[(''building_id'', JStr ''''), (''toid'', JStr ''X123''),
                 (''tags'', JArr [JNum 1, JNum 2, JNum 3])]"
  let ?bad = "[(''building_id'', JStr ''''), (''tags'', JStr ''nil'')]"
  have empty: "map_of ?line ''building_id'' = Some (JStr [])"
    by simp
  have decoded: "parse_json_columns loads_example ?line [''tags''] = Inr ?line'"
    by (simp add: json_loads_def loads_example_def)
  note T = empty_building_id_accepted [where net = registry and loads = loads_example
      and base_url = "''b''" and api_key = "''k''" and json_columns = "[''tags'']" and w = "[]"]
  from T [OF empty, THEN conjunct1]
  have a: "find_building registry ?line ''b'' [] =
      Some (JStr '''', [Print [JStr ''match_by_building_id'', JStr '''']])"
    by simp
  from T [OF empty, THEN conjunct2, THEN conjunct1, rule_format, OF decoded]
  have b: "main_body registry loads_example ''b'' ''k'' [''tags''] ?line [] =
     Some (Inr (),
       [Print [JStr ''match_by_building_id'', JStr ''''],
        Http (Building_POST ''b'' (JStr '''') ''k'' ?line') (Response 200 (Some (JObj []))),
        Print [JStr ''DEBUG'', JStr '''', JNum 200, JObj []]])"
    by (simp add: run_simps)
  have empty': "map_of ?bad ''building_id'' = Some (JStr [])"
    by simp
  have invalid: "parse_json_columns loads_example ?bad [''tags''] = Inl JSONDecodeError"
    by (simp add: json_loads_def loads_example_def)
  from T [OF empty', THEN conjunct2, THEN conjunct2, THEN conjunct2, rule_format, OF invalid]
  have c: "main_body registry loads_example ''b'' ''k'' [''tags''] ?bad [] =
     Some (Inl JSONDecodeError, [Print [JStr ''match_by_building_id'', JStr '''']])"
    by simp
  from a b c show ?thesis by blast
qed

end
